theory Spec2Isabelle
  imports Main "HOL-Library.Word"
begin

unbundle bit_operations_syntax

section \<open>Data model of \<^verbatim>\<open>AB_vector.h\<close>\<close>

text \<open>
  The header is a set of macros and four inline functions over
  \<^verbatim>\<open>struct { AB_VEC_SIZE_T num, capacity; type *elems; void *userdata; }\<close>.

  \<^item> \<open>'s\<close> is the width of \<^verbatim>\<open>AB_VEC_SIZE_T\<close> (64 for the default \<^verbatim>\<open>size_t\<close> on an
    LP64 platform): \<open>num\<close>, \<open>capacity\<close>, indices and byte counts are \<open>'s word\<close>, so
    \<open>+\<close>, \<open>*\<close> and the left shift wrap as unsigned C arithmetic does.  The fields of a
    narrower size type (the \<^verbatim>\<open>unsigned short\<close> of the second driver) take the same values,
    because every result is truncated when it is stored; only the byte counts handed to the
    hooks are then computed in \<^verbatim>\<open>int\<close> and differ.
  \<^item> \<open>'e\<close> is the element type and \<open>'u\<close> the pointee of \<^verbatim>\<open>userdata\<close>, \<open>None\<close> for
    \<^verbatim>\<open>NULL\<close>.  The struct is the one with \<^verbatim>\<open>AB_VEC_INCLUDE_USERDATA\<close>; without that option
    the field is absent and the hooks are passed no userdata, which is the case of a
    userdata that stays \<open>None\<close> and hooks that ignore it.
  \<^item> \<^verbatim>\<open>elems\<close> points to a block owned by the vector alone, so the pointer is modelled
    together with the block it points to: \<open>None\<close> is \<^verbatim>\<open>NULL\<close>, \<open>Some xs\<close> a block whose
    slots hold \<open>xs\<close>.  How many slots a block has is decided by the allocation hook, not by
    the \<open>capacity\<close> field.
  \<^item> A vector is passed by value and returned updated; the pointer \<^verbatim>\<open>vec\<close> of the source is
    the vector itself, so \<^verbatim>\<open>AB_VEC_ASSERT(vec != NULL)\<close> always passes and is not repeated
    in the definitions.
\<close>

record (overloaded) ('s, 'e, 'u) AB_vector_generic =
  num :: "'s word"
  capacity :: "'s word"
  elems :: "'e list option"
  userdata :: "'u option"

text \<open>
  A run of an operation ends in a fault or returns.  \<open>AssertFailed\<close> is \<^verbatim>\<open>AB_VEC_ASSERT\<close>
  stopping the program; \<open>InvalidAccess\<close> is a read or write through \<^verbatim>\<open>NULL\<close> or outside the
  block (undefined behaviour in C).
\<close>

datatype fault = AssertFailed | InvalidAccess

type_synonym 'a result = "fault + 'a"

text \<open>
  The configuration macros.  \<open>'w\<close> is whatever the hooks act on besides the block (the
  allocator's state, a log).

  \<^item> \<open>assert_enabled\<close>: whether \<^verbatim>\<open>AB_VEC_ASSERT(cond)\<close> stops the program on a false
    condition.  \<open>True\<close> is the header's default (\<^verbatim>\<open>assert(cond)\<close>) and the \<^verbatim>\<open>my_assert\<close> of
    the second driver; \<open>False\<close> is the assertion compiled out, which the header recommends
    for release builds.
  \<^item> \<open>AB_VEC_REALLOC ptr old_size new_size userdata\<close>: \<open>None\<close> is a \<^verbatim>\<open>NULL\<close> result.  As
    for \<^verbatim>\<open>realloc\<close>, a failing call leaves the old block as it was.
  \<^item> \<open>AB_VEC_FREE ptr size userdata\<close>.
  \<^item> \<open>AB_VEC_SIZE_T_ROUNDUP x\<close>: \<open>None\<close> when the function does not return.
  \<^item> \<open>sizeof_elem\<close>: \<^verbatim>\<open>sizeof(*(vec)->elems)\<close>.
  \<^item> \<open>overlay r s d\<close>: the element whose first \<open>r\<close> bytes are those of \<open>s\<close> and whose
    other bytes are those of \<open>d\<close>; used only where \<^verbatim>\<open>memcpy\<close> stops inside an element.
\<close>

record (overloaded) ('s, 'e, 'u, 'w) config =
  assert_enabled :: bool
  AB_VEC_REALLOC ::
    "'e list option \<Rightarrow> 's word \<Rightarrow> 's word \<Rightarrow> 'u option \<Rightarrow> 'w \<Rightarrow> 'e list option \<times> 'w"
  AB_VEC_FREE :: "'e list option \<Rightarrow> 's word \<Rightarrow> 'u option \<Rightarrow> 'w \<Rightarrow> 'w"
  AB_VEC_SIZE_T_ROUNDUP :: "'s word \<Rightarrow> 's word option"
  sizeof_elem :: "'s word"
  overlay :: "nat \<Rightarrow> 'e \<Rightarrow> 'e \<Rightarrow> 'e"

definition AB_VEC_ASSERT :: "('s::len, 'e, 'u, 'w) config \<Rightarrow> bool \<Rightarrow> unit result" where
  "AB_VEC_ASSERT cfg cond = (if assert_enabled cfg \<and> \<not> cond then Inl AssertFailed else Inr ())"

subsection \<open>Memory accesses\<close>

definition slots :: "'e list option \<Rightarrow> nat" where
  "slots p = (case p of None \<Rightarrow> 0 | Some xs \<Rightarrow> length xs)"

text \<open>\<^verbatim>\<open>p[i]\<close> read as a value.\<close>

definition load :: "'e list option \<Rightarrow> 's::len word \<Rightarrow> 'e result" where
  "load p i =
     (case p of
        None \<Rightarrow> Inl InvalidAccess
      | Some xs \<Rightarrow> if unat i < length xs then Inr (xs ! unat i) else Inl InvalidAccess)"

text \<open>\<^verbatim>\<open>p[i] = v\<close>.\<close>

definition store :: "'e list option \<Rightarrow> 's::len word \<Rightarrow> 'e \<Rightarrow> 'e list option result" where
  "store p i v =
     (case p of
        None \<Rightarrow> Inl InvalidAccess
      | Some xs \<Rightarrow>
          if unat i < length xs then Inr (Some (xs[unat i := v])) else Inl InvalidAccess)"

text \<open>
  \<^verbatim>\<open>memcpy(d, s, n)\<close> with \<open>n\<close> in bytes and elements of \<open>esz\<close> bytes: \<open>n div esz\<close> whole
  slots are copied and, if \<open>n\<close> is not a multiple of \<open>esz\<close>, the first \<open>n mod esz\<close> bytes of
  the next one.  Copying no bytes is taken to do nothing, whatever the pointers are.
\<close>

definition memcpy ::
  "('s::len, 'e, 'u, 'w) config \<Rightarrow> 'e list option \<Rightarrow> 'e list option \<Rightarrow> 's word \<Rightarrow> 's word
     \<Rightarrow> 'e list option result" where
  "memcpy cfg d s n esz =
     (if n = 0 then Inr d
      else
        (case (d, s) of
           (Some ds, Some ss) \<Rightarrow>
             (let k = unat n div unat esz; r = unat n mod unat esz in
              if r = 0 then
                (if k \<le> length ds \<and> k \<le> length ss
                 then Inr (Some (take k ss @ drop k ds))
                 else Inl InvalidAccess)
              else
                (if k < length ds \<and> k < length ss
                 then Inr (Some (take k ss @ [overlay cfg r (ss ! k) (ds ! k)] @ drop (Suc k) ds))
                 else Inl InvalidAccess))
         | _ \<Rightarrow> Inl InvalidAccess))"

section \<open>The operations\<close>

text \<open>\<^verbatim>\<open>AB_VEC_INIT\<close> and \<^verbatim>\<open>AB_vec_init\<close>: all fields zero.\<close>

definition AB_VEC_INIT :: "('s::len, 'e, 'u) AB_vector_generic" where
  "AB_VEC_INIT = \<lparr>num = 0, capacity = 0, elems = None, userdata = None\<rparr>"

definition AB_vec_init ::
  "('s::len, 'e, 'u) AB_vector_generic \<Rightarrow> ('s, 'e, 'u) AB_vector_generic" where
  "AB_vec_init vec = vec\<lparr>num := 0, capacity := 0, elems := None, userdata := None\<rparr>"

text \<open>
  \<^verbatim>\<open>AB_vec_destroy(vec)\<close>: the macro is the single call
  \<^verbatim>\<open>AB_VEC_FREE((vec)->elems, (vec)->capacity * sizeof(*(vec)->elems), (vec)->userdata)\<close>.
  It assigns to no field of the vector.
\<close>

definition AB_vec_destroy ::
  "('s::len, 'e, 'u, 'w) config \<Rightarrow> ('s, 'e, 'u) AB_vector_generic \<Rightarrow> 'w
     \<Rightarrow> ('s, 'e, 'u) AB_vector_generic \<times> 'w" where
  "AB_vec_destroy cfg vec w =
     (vec, AB_VEC_FREE cfg (elems vec) (capacity vec * sizeof_elem cfg) (userdata vec) w)"

text \<open>\<^verbatim>\<open>AB_vec_at(vec, idx)\<close> read as a value; the index is not checked by the macro.\<close>

definition AB_vec_at :: "('s::len, 'e, 'u) AB_vector_generic \<Rightarrow> 's word \<Rightarrow> 'e result" where
  "AB_vec_at vec idx = load (elems vec) idx"

definition AB_vec_size :: "('s::len, 'e, 'u) AB_vector_generic \<Rightarrow> 's word" where
  "AB_vec_size vec = num vec"

definition AB_vec_max :: "('s::len, 'e, 'u) AB_vector_generic \<Rightarrow> 's word" where
  "AB_vec_max vec = capacity vec"

text \<open>
  \<^verbatim>\<open>AB_vec_pop(vec)\<close> is \<^verbatim>\<open>(AB_VEC_ASSERT((vec)->num > 0), (vec)->elems[--(vec)->num])\<close>:
  the decrement wraps when the assertion is compiled out and \<open>num\<close> is 0.
\<close>

definition AB_vec_pop ::
  "('s::len, 'e, 'u, 'w) config \<Rightarrow> ('s, 'e, 'u) AB_vector_generic
     \<Rightarrow> ('e \<times> ('s, 'e, 'u) AB_vector_generic) result" where
  "AB_vec_pop cfg vec =
     (case AB_VEC_ASSERT cfg (num vec > 0) of
        Inl f \<Rightarrow> Inl f
      | Inr _ \<Rightarrow>
          (let vec' = vec\<lparr>num := num vec - 1\<rparr> in
           case load (elems vec') (num vec') of
             Inl f \<Rightarrow> Inl f
           | Inr x \<Rightarrow> Inr (x, vec')))"

text \<open>
  \<^verbatim>\<open>AB_vec_resize_generic\<close>.  The result is the returned \<^verbatim>\<open>int\<close>, the vector and the hooks'
  state.  With the assertion enabled a \<^verbatim>\<open>NULL\<close> from the hook stops the program at
  \<^verbatim>\<open>AB_VEC_ASSERT(new_elems != NULL)\<close>, before \<^verbatim>\<open>return 1\<close> is reached.
\<close>

definition AB_vec_resize_generic ::
  "('s::len, 'e, 'u, 'w) config \<Rightarrow> ('s, 'e, 'u) AB_vector_generic \<Rightarrow> 's word \<Rightarrow> 's word \<Rightarrow> 'w
     \<Rightarrow> (int \<times> ('s, 'e, 'u) AB_vector_generic \<times> 'w) result" where
  "AB_vec_resize_generic cfg vec new_size elem_size w =
     (case AB_VEC_REALLOC cfg (elems vec) (elem_size * capacity vec) (elem_size * new_size)
             (userdata vec) w of
        (new_elems, w') \<Rightarrow>
          (case AB_VEC_ASSERT cfg (new_elems \<noteq> None) of
             Inl f \<Rightarrow> Inl f
           | Inr _ \<Rightarrow>
               if new_elems = None then Inr (1, vec, w')
               else Inr (0, vec\<lparr>elems := new_elems, capacity := new_size\<rparr>, w')))"

definition AB_vec_resize ::
  "('s::len, 'e, 'u, 'w) config \<Rightarrow> ('s, 'e, 'u) AB_vector_generic \<Rightarrow> 's word \<Rightarrow> 'w
     \<Rightarrow> (int \<times> ('s, 'e, 'u) AB_vector_generic \<times> 'w) result" where
  "AB_vec_resize cfg vec newsize w = AB_vec_resize_generic cfg vec newsize (sizeof_elem cfg) w"

text \<open>
  \<^verbatim>\<open>AB_vec_copy_generic\<close>.  \<^verbatim>\<open>AB_VEC_ASSERT(!err)\<close> comes before \<^verbatim>\<open>if (err) return 1\<close>.
\<close>

definition AB_vec_copy_generic ::
  "('s::len, 'e, 'u, 'w) config \<Rightarrow> ('s, 'e, 'u) AB_vector_generic
     \<Rightarrow> ('s, 'e, 'u) AB_vector_generic \<Rightarrow> 's word \<Rightarrow> 'w
     \<Rightarrow> (int \<times> ('s, 'e, 'u) AB_vector_generic \<times> 'w) result" where
  "AB_vec_copy_generic cfg dest src entry_size w =
     (let copy_body = (\<lambda>dest1 w1.
            (let dest2 = dest1\<lparr>num := num src\<rparr> in
             case memcpy cfg (elems dest2) (elems src) (entry_size * capacity src) entry_size of
               Inl f \<Rightarrow> Inl f
             | Inr p \<Rightarrow> Inr (0, dest2\<lparr>elems := p\<rparr>, w1)))
      in
      if capacity dest < capacity src then
        (case AB_vec_resize_generic cfg dest (capacity src) entry_size w of
           Inl f \<Rightarrow> Inl f
         | Inr (err, dest1, w1) \<Rightarrow>
             (case AB_VEC_ASSERT cfg (err = 0) of
                Inl f \<Rightarrow> Inl f
              | Inr _ \<Rightarrow> if err \<noteq> 0 then Inr (1, dest1, w1) else copy_body dest1 w1))
      else copy_body dest w)"

definition AB_vec_copy ::
  "('s::len, 'e, 'u, 'w) config \<Rightarrow> ('s, 'e, 'u) AB_vector_generic
     \<Rightarrow> ('s, 'e, 'u) AB_vector_generic \<Rightarrow> 'w
     \<Rightarrow> (int \<times> ('s, 'e, 'u) AB_vector_generic \<times> 'w) result" where
  "AB_vec_copy cfg dest src w = AB_vec_copy_generic cfg dest src (sizeof_elem cfg) w"

text \<open>
  \<^verbatim>\<open>((vec)->elems[(vec)->num++] = (elem), 0)\<close>, the success branch shared by both arms of
  \<^verbatim>\<open>AB_vec_push\<close>.
\<close>

definition store_at_num ::
  "('s::len, 'e, 'u) AB_vector_generic \<Rightarrow> 'e \<Rightarrow> 'w
     \<Rightarrow> (int \<times> ('s, 'e, 'u) AB_vector_generic \<times> 'w) result" where
  "store_at_num vec elem w =
     (case store (elems vec) (num vec) elem of
        Inl f \<Rightarrow> Inl f
      | Inr p \<Rightarrow> Inr (0, vec\<lparr>elems := p, num := num vec + 1\<rparr>, w))"

text \<open>\<^verbatim>\<open>AB_vec_push(vec, elem)\<close>; \<^verbatim>\<open>capacity << 1\<close> is \<open>push_bit 1\<close>.\<close>

definition AB_vec_push ::
  "('s::len, 'e, 'u, 'w) config \<Rightarrow> ('s, 'e, 'u) AB_vector_generic \<Rightarrow> 'e \<Rightarrow> 'w
     \<Rightarrow> (int \<times> ('s, 'e, 'u) AB_vector_generic \<times> 'w) result" where
  "AB_vec_push cfg vec elem w =
     (if num vec = capacity vec then
        (case AB_vec_resize cfg vec
                (if capacity vec \<noteq> 0 then push_bit 1 (capacity vec) else 2) w of
           Inl f \<Rightarrow> Inl f
         | Inr (err, vec', w') \<Rightarrow>
             if err = 0 then store_at_num vec' elem w' else Inr (1, vec', w'))
      else store_at_num vec elem w)"

text \<open>
  The default round-up, \<^verbatim>\<open>AB_vec_roundup_size_t\<close>.  The loop \<^verbatim>\<open>while (y <= x) y += y;\<close>
  need not end (\<open>y\<close> wraps to 0), so it is a partial function: \<open>None\<close> is a run that
  never returns.
\<close>

partial_function (option) roundup_loop :: "'s::len word \<Rightarrow> 's word \<Rightarrow> 's word option" where
  "roundup_loop x y = (if y \<le> x then roundup_loop x (y + y) else Some y)"

declare roundup_loop.simps [code]

definition AB_vec_roundup_size_t :: "'s::len word \<Rightarrow> 's word option" where
  "AB_vec_roundup_size_t x = (if x = 0 then Some 0 else roundup_loop x 1)"

text \<open>
  \<^verbatim>\<open>AB_vec_insert_generic\<close>; the outer \<open>option\<close> is \<open>None\<close> when the round-up function
  does not return.
\<close>

definition AB_vec_insert_generic ::
  "('s::len, 'e, 'u, 'w) config \<Rightarrow> ('s, 'e, 'u) AB_vector_generic \<Rightarrow> 's word \<Rightarrow> 's word \<Rightarrow> 'w
     \<Rightarrow> (int \<times> ('s, 'e, 'u) AB_vector_generic \<times> 'w) result option" where
  "AB_vec_insert_generic cfg vec idx elem_size w =
     (let set_num = (\<lambda>vec1. if num vec1 \<le> idx then vec1\<lparr>num := idx + 1\<rparr> else vec1) in
      if capacity vec \<le> idx then
        (case AB_VEC_SIZE_T_ROUNDUP cfg (idx + 1) of
           None \<Rightarrow> None
         | Some new_size \<Rightarrow>
             (case AB_vec_resize_generic cfg vec new_size elem_size w of
                Inl f \<Rightarrow> Some (Inl f)
              | Inr (err, vec1, w1) \<Rightarrow>
                  if err \<noteq> 0 then Some (Inr (1, vec1, w1))
                  else Some (Inr (0, set_num vec1, w1))))
      else Some (Inr (0, set_num vec, w)))"

text \<open>
  \<^verbatim>\<open>AB_vec_insert(vec, idx, elem)\<close> is the expression
  \<^verbatim>\<open>(AB_vec_insert_generic(...) == 0 ? (vec)->elems[(idx)] = (elem) : 1)\<close>.  Its value is the
  value of the assignment in one branch and the constant 1 in the other, both in the
  element type after the usual conversions.
\<close>

definition AB_vec_insert ::
  "('s::len, 'e::one, 'u, 'w) config \<Rightarrow> ('s, 'e, 'u) AB_vector_generic \<Rightarrow> 's word \<Rightarrow> 'e \<Rightarrow> 'w
     \<Rightarrow> ('e \<times> ('s, 'e, 'u) AB_vector_generic \<times> 'w) result option" where
  "AB_vec_insert cfg vec idx elem w =
     (case AB_vec_insert_generic cfg vec idx (sizeof_elem cfg) w of
        None \<Rightarrow> None
      | Some (Inl f) \<Rightarrow> Some (Inl f)
      | Some (Inr (r, vec1, w1)) \<Rightarrow>
          if r = 0 then
            (case store (elems vec1) idx elem of
               Inl f \<Rightarrow> Some (Inl f)
             | Inr p \<Rightarrow> Some (Inr (elem, vec1\<lparr>elems := p\<rparr>, w1)))
          else Some (Inr (1, vec1, w1)))"

section \<open>The hooks and loops of the drivers\<close>

text \<open>
  The header's default hooks are \<^verbatim>\<open>realloc(ptr, new_size)\<close> and \<^verbatim>\<open>free(ptr)\<close>.  The state
  \<open>'w\<close> of the allocator is modelled by the list of the calls it has received, with the
  sizes and the userdata the macros pass (the second driver's hooks print exactly these).
  \<open>realloc_ok\<close> is a call of \<^verbatim>\<open>realloc\<close> that succeeds: the new block has \<open>new_size div
  esz\<close> slots, keeps the old contents up to the smaller of the two sizes, and reads \<open>fill\<close>
  in the slots that are new.  \<open>out_of_memory\<close> is a call that fails.
\<close>

datatype 'e hook_call =
    Realloc_call nat nat "string option"
  | Free_call "'e list option" nat "string option"

definition realloc_ok ::
  "nat \<Rightarrow> 'e \<Rightarrow> 'e list option \<Rightarrow> 's::len word \<Rightarrow> 's word \<Rightarrow> string option
     \<Rightarrow> 'e hook_call list \<Rightarrow> 'e list option \<times> 'e hook_call list" where
  "realloc_ok esz fill ptr old_size new_size name log =
     (let k = unat new_size div esz;
          xs = (case ptr of None \<Rightarrow> [] | Some xs \<Rightarrow> xs)
      in (Some (take k (xs @ replicate k fill)),
          log @ [Realloc_call (unat old_size) (unat new_size) name]))"

definition free_ok ::
  "'e list option \<Rightarrow> 's::len word \<Rightarrow> string option \<Rightarrow> 'e hook_call list \<Rightarrow> 'e hook_call list"
  where
  "free_ok ptr sz name log = log @ [Free_call ptr (unat sz) name]"

definition out_of_memory ::
  "'e list option \<Rightarrow> 's::len word \<Rightarrow> 's word \<Rightarrow> 'u option \<Rightarrow> 'w \<Rightarrow> 'e list option \<times> 'w" where
  "out_of_memory ptr old_size new_size ud w = (None, w)"

text \<open>
  The second driver's replacement for the round-up, on \<^verbatim>\<open>unsigned short\<close>:
  \<^verbatim>\<open>x--; x |= x >> 1; x |= x >> 2; x |= x >> 4; x |= x >> 8; x++;\<close>
\<close>

definition my_roundup :: "16 word \<Rightarrow> 16 word" where
  "my_roundup x0 =
     (let x1 = x0 - 1;
          x2 = x1 OR drop_bit 1 x1;
          x3 = x2 OR drop_bit 2 x2;
          x4 = x3 OR drop_bit 4 x3;
          x5 = x4 OR drop_bit 8 x4
      in x5 + 1)"

text \<open>
  The header's defaults for a vector of \<^verbatim>\<open>int\<close> (4 bytes, little-endian) with a 64-bit
  \<^verbatim>\<open>size_t\<close>: the assertion in force, the default round-up, \<^verbatim>\<open>realloc\<close> and \<^verbatim>\<open>free\<close>, in
  a run where \<^verbatim>\<open>realloc\<close> succeeds and new memory reads as 0.
\<close>

definition int_cfg :: "(64, 32 word, string, 32 word hook_call list) config" where
  "int_cfg =
     \<lparr>assert_enabled = True,
      AB_VEC_REALLOC = realloc_ok 4 0,
      AB_VEC_FREE = free_ok,
      AB_VEC_SIZE_T_ROUNDUP = AB_vec_roundup_size_t,
      sizeof_elem = 4,
      overlay = (\<lambda>r s d. (s AND mask (8 * r)) OR (d AND NOT (mask (8 * r))))\<rparr>"

text \<open>
  The loop of the first driver,
  \<^verbatim>\<open>for (...) { int err = AB_vec_push(&my_vec, i); assert(!err); }\<close>:
  \<open>Some\<close> of the final vector when every push returned 0, \<open>None\<close> otherwise.
\<close>

fun push_all ::
  "('s::len, 'e, 'u, 'w) config \<Rightarrow> ('s, 'e, 'u) AB_vector_generic \<Rightarrow> 'e list \<Rightarrow> 'w
     \<Rightarrow> (('s, 'e, 'u) AB_vector_generic \<times> 'w) option" where
  "push_all cfg vec [] w = Some (vec, w)"
| "push_all cfg vec (x # xs) w =
     (case AB_vec_push cfg vec x w of
        Inl f \<Rightarrow> None
      | Inr (err, vec', w') \<Rightarrow> if err = 0 then push_all cfg vec' xs w' else None)"

section \<open>Notions of the specification\<close>

text \<open>\<open>c\<close> is the smallest power of two that is at least \<open>n\<close>.\<close>

definition is_smallest_pow2_ge :: "nat \<Rightarrow> nat \<Rightarrow> bool" where
  "is_smallest_pow2_ge n c \<longleftrightarrow>
     (\<exists>k. c = 2 ^ k) \<and> n \<le> c \<and> (\<forall>j. n \<le> 2 ^ j \<longrightarrow> c \<le> 2 ^ j)"

text \<open>
  The contract of the allocation hook that the operations rely on for the stored elements
  (that of \<^verbatim>\<open>realloc\<close>): a successful call returns a block that agrees with the old one on
  the slots both have.
\<close>

definition realloc_keeps_contents :: "('s::len, 'e, 'u, 'w) config \<Rightarrow> bool" where
  "realloc_keeps_contents cfg \<longleftrightarrow>
     (\<forall>p old_size new_size ud w ys.
        fst (AB_VEC_REALLOC cfg p old_size new_size ud w) = Some ys \<longrightarrow>
        (\<forall>i. i < slots p \<and> i < length ys \<longrightarrow> ys ! i = the p ! i))"

section \<open>Concrete vectors\<close>

text \<open>A vector of three \<^verbatim>\<open>int\<close>s in a block of four slots, and the fresh vector.\<close>

definition vec3 :: "(64, 32 word, string) AB_vector_generic" where
  "vec3 = \<lparr>num = 3, capacity = 4, elems = Some [10, 20, 30, 0], userdata = Some ''v''\<rparr>"

definition vec0 :: "(64, 32 word, string) AB_vector_generic" where
  "vec0 = AB_VEC_INIT"

text \<open>
  \<open>int_cfg\<close> with the assertion compiled out, and both with an allocator that is out of
  memory.
\<close>

definition release_cfg :: "(64, 32 word, string, 32 word hook_call list) config" where
  "release_cfg = int_cfg\<lparr>assert_enabled := False\<rparr>"

definition oom_cfg :: "(64, 32 word, string, 32 word hook_call list) config" where
  "oom_cfg = int_cfg\<lparr>AB_VEC_REALLOC := out_of_memory\<rparr>"

definition oom_release_cfg :: "(64, 32 word, string, 32 word hook_call list) config" where
  "oom_release_cfg = release_cfg\<lparr>AB_VEC_REALLOC := out_of_memory\<rparr>"

text \<open>
  The vector after \<^verbatim>\<open>AB_vec_insert(&vec, 19, 2)\<close> on the fresh vector, the first call of the
  second driver, with the default round-up.
\<close>

definition vec_ins19 :: "(64, 32 word, string) AB_vector_generic" where
  "vec_ins19 =
     \<lparr>num = 20, capacity = 32, elems = Some ((replicate 32 0)[19 := 2]), userdata = None\<rparr>"

text \<open>The values \<^verbatim>\<open>0 .. 19\<close> that the first driver pushes.\<close>

definition driver_values :: "32 word list" where
  "driver_values = [0, 1, 2, 3, 4, 5, 6, 7, 8, 9, 10, 11, 12, 13, 14, 15, 16, 17, 18, 19]"

text \<open>A full vector of two \<^verbatim>\<open>int\<close>s.\<close>

definition vec_full :: "(64, 32 word, string) AB_vector_generic" where
  "vec_full = \<lparr>num = 2, capacity = 2, elems = Some [10, 20], userdata = None\<rparr>"

text \<open>
  The vector that \<^verbatim>\<open>AB_vec_resize(&vec, 2)\<close> leaves from \<open>vec3\<close>: three elements counted,
  two slots of storage.
\<close>

definition vec_shrunk :: "(64, 32 word, string) AB_vector_generic" where
  "vec_shrunk = \<lparr>num = 3, capacity = 2, elems = Some [10, 20], userdata = Some ''v''\<rparr>"

text \<open>Two destinations for a copy that hold elements: one slot, and five slots.\<close>

definition vec_small :: "(64, 32 word, string) AB_vector_generic" where
  "vec_small = \<lparr>num = 1, capacity = 1, elems = Some [77], userdata = Some ''d''\<rparr>"

definition vec_big :: "(64, 32 word, string) AB_vector_generic" where
  "vec_big = \<lparr>num = 5, capacity = 5, elems = Some [1, 2, 3, 4, 5], userdata = Some ''d''\<rparr>"

section \<open>Properties\<close>

subsection \<open>Arithmetic of the size type\<close>

lemma unat_all_ones: "unat (- 1 :: 's::len word) = 2 ^ LENGTH('s) - 1"
  by (simp add: unsigned_minus_1_eq_mask mask_eq_exp_minus_1)

subsection \<open>What a returning call has done\<close>

text \<open>The two ways \<open>AB_vec_resize_generic\<close> returns: 0 after a successful hook call,
  1 (only with the assertion compiled out) after a failed one, the vector untouched.\<close>

lemma resize_generic_cases:
  "AB_vec_resize_generic cfg vec new_size esz w = Inr (r, vec1, w1) \<Longrightarrow>
     (r = 0 \<and> (\<exists>ys. AB_VEC_REALLOC cfg (elems vec) (esz * capacity vec) (esz * new_size)
                       (userdata vec) w = (Some ys, w1)
               \<and> vec1 = vec\<lparr>elems := Some ys, capacity := new_size\<rparr>))
     \<or> (r = 1 \<and> vec1 = vec \<and> \<not> assert_enabled cfg
         \<and> AB_VEC_REALLOC cfg (elems vec) (esz * capacity vec) (esz * new_size)
              (userdata vec) w = (None, w1))"
  by (auto simp: AB_vec_resize_generic_def AB_VEC_ASSERT_def split: prod.splits if_splits)

lemma insert_generic_cases:
  "AB_vec_insert_generic cfg vec idx esz w = Some (Inr (r, vec1, w1)) \<Longrightarrow>
    (r = 0 \<and> num vec1 = (if num vec \<le> idx then idx + 1 else num vec)
       \<and> userdata vec1 = userdata vec
       \<and> (if capacity vec \<le> idx
           then (\<exists>new_size ys. AB_VEC_SIZE_T_ROUNDUP cfg (idx + 1) = Some new_size
                  \<and> AB_VEC_REALLOC cfg (elems vec) (esz * capacity vec) (esz * new_size)
                       (userdata vec) w = (Some ys, w1)
                  \<and> capacity vec1 = new_size \<and> elems vec1 = Some ys)
           else capacity vec1 = capacity vec \<and> elems vec1 = elems vec \<and> w1 = w))
    \<or> (r = 1 \<and> vec1 = vec \<and> capacity vec \<le> idx \<and> \<not> assert_enabled cfg
        \<and> (\<exists>new_size. AB_VEC_SIZE_T_ROUNDUP cfg (idx + 1) = Some new_size
              \<and> AB_VEC_REALLOC cfg (elems vec) (esz * capacity vec) (esz * new_size)
                   (userdata vec) w = (None, w1)))"
  unfolding AB_vec_insert_generic_def Let_def
  by (auto split: option.splits sum.splits prod.splits if_splits dest!: resize_generic_cases)

lemma store_at_num_cases:
  "store_at_num vec x w = Inr (r, vec', w') \<Longrightarrow>
     r = 0 \<and> w' = w \<and> (\<exists>xs. elems vec = Some xs \<and> unat (num vec) < length xs
        \<and> vec' = vec\<lparr>elems := Some (xs[unat (num vec) := x]), num := num vec + 1\<rparr>)"
  by (auto simp: store_at_num_def store_def split: option.splits sum.splits if_splits)

text \<open>
  What a call does, given what the hook returns: the resize, and the three runs of an
  insert (storage grown, storage large enough, growth refused).
\<close>

lemma resize_generic_ok:
  "AB_VEC_REALLOC cfg (elems vec) (esz * capacity vec) (esz * new_size) (userdata vec) w
     = (Some ys, w1) \<Longrightarrow>
   AB_vec_resize_generic cfg vec new_size esz w =
     Inr (0, vec\<lparr>elems := Some ys, capacity := new_size\<rparr>, w1)"
  by (simp add: AB_vec_resize_generic_def AB_VEC_ASSERT_def)

lemma resize_generic_fails:
  "AB_VEC_REALLOC cfg (elems vec) (esz * capacity vec) (esz * new_size) (userdata vec) w
     = (None, w1) \<Longrightarrow>
   AB_vec_resize_generic cfg vec new_size esz w =
     (if assert_enabled cfg then Inl AssertFailed else Inr (1, vec, w1))"
  by (simp add: AB_vec_resize_generic_def AB_VEC_ASSERT_def)

lemma insert_growth_ok:
  assumes "capacity vec \<le> idx"
      and "AB_VEC_SIZE_T_ROUNDUP cfg (idx + 1) = Some new_size"
      and "AB_VEC_REALLOC cfg (elems vec) (sizeof_elem cfg * capacity vec)
             (sizeof_elem cfg * new_size) (userdata vec) w = (Some ys, w1)"
      and "unat idx < length ys"
  shows "AB_vec_insert cfg vec idx v w =
    Some (Inr (v, vec\<lparr>num := (if num vec \<le> idx then idx + 1 else num vec),
                       capacity := new_size, elems := Some (ys[unat idx := v])\<rparr>, w1))"
  using assms
  by (simp add: AB_vec_insert_def AB_vec_insert_generic_def resize_generic_ok store_def Let_def)

lemma insert_no_growth:
  assumes "idx < capacity vec" and "elems vec = Some xs" and "unat idx < length xs"
  shows "AB_vec_insert cfg vec idx v w =
    Some (Inr (v, vec\<lparr>num := (if num vec \<le> idx then idx + 1 else num vec),
                       elems := Some (xs[unat idx := v])\<rparr>, w))"
  using assms
  by (simp add: AB_vec_insert_def AB_vec_insert_generic_def store_def Let_def not_le [symmetric])

lemma insert_growth_fails:
  assumes "capacity vec \<le> idx"
      and "AB_VEC_SIZE_T_ROUNDUP cfg (idx + 1) = Some new_size"
      and "AB_VEC_REALLOC cfg (elems vec) (sizeof_elem cfg * capacity vec)
             (sizeof_elem cfg * new_size) (userdata vec) w = (None, w1)"
  shows "AB_vec_insert cfg vec idx v w =
           Some (if assert_enabled cfg then Inl AssertFailed else Inr (1, vec, w1))"
  using assms
  by (simp add: AB_vec_insert_def AB_vec_insert_generic_def resize_generic_fails Let_def)

subsection \<open>Explicit resize\<close>

text \<open>
  Claim C8.  A resize that returns 0 sets \<open>capacity\<close> to exactly the requested value and
  leaves \<open>num\<close> as it was, for every vector and every requested capacity; when the request is
  below \<open>num\<close>, the vector is left with \<open>num > capacity\<close>.
\<close>

theorem resize_sets_capacity_keeps_num:
  "AB_vec_resize cfg vec new_capacity w = Inr (0, vec', w') \<Longrightarrow>
     capacity vec' = new_capacity \<and> num vec' = num vec
     \<and> (new_capacity < num vec \<longrightarrow> capacity vec' < num vec')"
  by (auto simp: AB_vec_resize_def AB_vec_resize_generic_def AB_VEC_ASSERT_def
      split: prod.splits if_splits)

theorem resize_sets_capacity_keeps_num_witness:
  "AB_vec_resize int_cfg vec3 2 [] =
     Inr (0, \<lparr>num = 3, capacity = 2, elems = Some [10, 20], userdata = Some ''v''\<rparr>,
          [Realloc_call 16 8 (Some ''v'')])
   \<and> capacity \<lparr>num = 3, capacity = 2, elems = Some [10, 20 :: 32 word],
               userdata = Some ''v''\<rparr> = (2 :: 64 word)
   \<and> (2 :: 64 word) < num vec3"
proof -
  have run: "AB_vec_resize int_cfg vec3 2 [] =
     Inr (0, \<lparr>num = 3, capacity = 2, elems = Some [10, 20], userdata = Some ''v''\<rparr>,
          [Realloc_call 16 8 (Some ''v'')])"
    by (simp add: AB_vec_resize_def AB_vec_resize_generic_def AB_VEC_ASSERT_def int_cfg_def
        vec3_def realloc_ok_def)
  from resize_sets_capacity_keeps_num [OF run] run show ?thesis
    by (simp add: vec3_def)
qed

subsection \<open>Release\<close>

text \<open>
  Claim C7, as the code has it.  \<open>AB_vec_destroy\<close> hands the storage pointer, the byte size
  \<open>capacity * sizeof(element)\<close> and the userdata to the release hook, and returns the vector
  with every field as it was: nothing is reset.
\<close>

theorem destroy_frees_and_keeps_fields:
  "snd (AB_vec_destroy cfg vec w) =
     AB_VEC_FREE cfg (elems vec) (capacity vec * sizeof_elem cfg) (userdata vec) w
   \<and> fst (AB_vec_destroy cfg vec w) = vec
   \<and> AB_vec_size (fst (AB_vec_destroy cfg vec w)) = AB_vec_size vec
   \<and> AB_vec_max (fst (AB_vec_destroy cfg vec w)) = AB_vec_max vec
   \<and> elems (fst (AB_vec_destroy cfg vec w)) = elems vec"
  by (simp add: AB_vec_destroy_def)

text \<open>
  The claim as written (the vector is reset to \<open>num = 0\<close>, \<open>capacity = 0\<close>,
  \<open>elems = NULL\<close>) fails on a vector of three elements.
\<close>

theorem destroy_resets_counterexample:
  "num (fst (AB_vec_destroy int_cfg vec3 [])) = 3
   \<and> capacity (fst (AB_vec_destroy int_cfg vec3 [])) = 4
   \<and> elems (fst (AB_vec_destroy int_cfg vec3 [])) = Some [10, 20, 30, 0]
   \<and> snd (AB_vec_destroy int_cfg vec3 []) = [Free_call (Some [10, 20, 30, 0]) 16 (Some ''v'')]"
  by (simp add: AB_vec_destroy_def int_cfg_def vec3_def free_ok_def)

subsection \<open>Pop on an empty vector\<close>

text \<open>
  Claim C9.  With the assertion of the header in force, \<open>AB_vec_pop\<close> on a vector with
  \<open>num = 0\<close>, the fresh vector among them, ends in the assertion fault and returns no
  value.  With the assertion compiled out there is no fail-fast path: the decrement wraps
  to the largest index and the read is outside the block (a block has fewer than
  \<open>2 ^ LENGTH('s)\<close> slots) or through \<^verbatim>\<open>NULL\<close>, which is undefined behaviour in C and the
  fault \<open>InvalidAccess\<close> here.  When \<open>num > 0\<close> the assertion fault cannot occur.
\<close>

theorem pop_empty_faults:
  fixes vec :: "('s::len, 'e, 'u) AB_vector_generic"
    and cfg :: "('s, 'e, 'u, 'w) config"
  shows
    "(num vec = 0 \<and> assert_enabled cfg \<longrightarrow> AB_vec_pop cfg vec = Inl AssertFailed)
     \<and> (num vec = 0 \<and> slots (elems vec) < 2 ^ LENGTH('s) \<longrightarrow>
          (\<exists>f. AB_vec_pop cfg vec = Inl f))
     \<and> AB_vec_pop cfg AB_VEC_INIT =
          Inl (if assert_enabled cfg then AssertFailed else InvalidAccess)
     \<and> (0 < num vec \<longrightarrow> AB_vec_pop cfg vec \<noteq> Inl AssertFailed)"
  by (auto simp: AB_vec_pop_def AB_VEC_ASSERT_def AB_VEC_INIT_def load_def slots_def Let_def
      unat_all_ones split: option.splits sum.splits if_splits)

theorem pop_empty_faults_witness:
  "num vec0 = 0 \<and> assert_enabled int_cfg \<and> slots (elems vec0) < 2 ^ 64
   \<and> AB_vec_pop int_cfg vec0 = Inl AssertFailed
   \<and> 0 < num vec3 \<and> AB_vec_pop int_cfg vec3 \<noteq> Inl AssertFailed"
  using pop_empty_faults [of vec0 int_cfg] pop_empty_faults [of vec3 int_cfg]
  by (simp add: vec0_def vec3_def AB_VEC_INIT_def int_cfg_def slots_def)

subsection \<open>Insertion at an index\<close>

text \<open>
  Claim C3, as the code has it.  An insert is successful when the allocation hook, if the
  growth step calls it, returns a block that has the slot \<open>idx\<close> (and otherwise the block
  of the vector has it).  Then, for every vector, the insert returns, \<open>AB_vec_at\<close> reads
  \<open>v\<close> at \<open>idx\<close>, and the new \<open>num\<close> is \<open>idx + 1\<close> (in the arithmetic of the size type)
  if \<open>idx \<ge> num\<close> and the old \<open>num\<close> if \<open>idx < num\<close>.  The capacity is decided by
  \<open>idx\<close> against \<open>capacity\<close>, not against \<open>num\<close>: for \<open>idx < capacity\<close> (every
  \<open>idx < num\<close> of a vector with \<open>num \<le> capacity\<close>) the insert overwrites slot \<open>idx\<close> and
  leaves the capacity and the hooks alone; for \<open>capacity \<le> idx\<close>, also when \<open>idx < num\<close>,
  the storage is first resized to the round-up of \<open>idx + 1\<close>.
\<close>

theorem insert_sets_length_and_slot:
  "(capacity vec \<le> idx \<and> AB_VEC_SIZE_T_ROUNDUP cfg (idx + 1) = Some new_size
      \<and> AB_VEC_REALLOC cfg (elems vec) (sizeof_elem cfg * capacity vec)
            (sizeof_elem cfg * new_size) (userdata vec) w = (Some ys, w1)
      \<and> unat idx < length ys \<longrightarrow>
        AB_vec_insert cfg vec idx v w =
          Some (Inr (v, vec\<lparr>num := (if num vec \<le> idx then idx + 1 else num vec),
                             capacity := new_size, elems := Some (ys[unat idx := v])\<rparr>, w1)))
   \<and> (idx < capacity vec \<and> elems vec = Some xs \<and> unat idx < length xs \<longrightarrow>
        AB_vec_insert cfg vec idx v w =
          Some (Inr (v, vec\<lparr>num := (if num vec \<le> idx then idx + 1 else num vec),
                             elems := Some (xs[unat idx := v])\<rparr>, w)))
   \<and> (AB_vec_insert_generic cfg vec idx (sizeof_elem cfg) w = Some (Inr (0, vec1, w2))
        \<and> AB_vec_insert cfg vec idx v w = Some (Inr (r, vec', w')) \<longrightarrow>
        r = v \<and> AB_vec_at vec' idx = Inr v
        \<and> (num vec \<le> idx \<longrightarrow> num vec' = idx + 1)
        \<and> (idx < num vec \<longrightarrow> num vec' = num vec)
        \<and> (idx < capacity vec \<longrightarrow>
              capacity vec' = capacity vec
              \<and> (\<exists>xs. elems vec = Some xs \<and> unat idx < length xs
                     \<and> elems vec' = Some (xs[unat idx := v])))
        \<and> (capacity vec \<le> idx \<longrightarrow>
              AB_VEC_SIZE_T_ROUNDUP cfg (idx + 1) = Some (capacity vec')))"
proof (intro conjI impI)
  assume "capacity vec \<le> idx \<and> AB_VEC_SIZE_T_ROUNDUP cfg (idx + 1) = Some new_size
      \<and> AB_VEC_REALLOC cfg (elems vec) (sizeof_elem cfg * capacity vec)
            (sizeof_elem cfg * new_size) (userdata vec) w = (Some ys, w1)
      \<and> unat idx < length ys"
  then show "AB_vec_insert cfg vec idx v w =
          Some (Inr (v, vec\<lparr>num := (if num vec \<le> idx then idx + 1 else num vec),
                             capacity := new_size, elems := Some (ys[unat idx := v])\<rparr>, w1))"
    by (intro insert_growth_ok) simp_all
next
  assume "idx < capacity vec \<and> elems vec = Some xs \<and> unat idx < length xs"
  then show "AB_vec_insert cfg vec idx v w =
          Some (Inr (v, vec\<lparr>num := (if num vec \<le> idx then idx + 1 else num vec),
                             elems := Some (xs[unat idx := v])\<rparr>, w))"
    by (intro insert_no_growth) simp_all
next
  assume a: "AB_vec_insert_generic cfg vec idx (sizeof_elem cfg) w = Some (Inr (0, vec1, w2))
        \<and> AB_vec_insert cfg vec idx v w = Some (Inr (r, vec', w'))"
  then have ok: "AB_vec_insert_generic cfg vec idx (sizeof_elem cfg) w = Some (Inr (0, vec1, w2))"
    and run: "AB_vec_insert cfg vec idx v w = Some (Inr (r, vec', w'))" by simp_all
  from insert_generic_cases [OF ok] run ok
  have all: "r = v \<and> AB_vec_at vec' idx = Inr v
        \<and> (num vec \<le> idx \<longrightarrow> num vec' = idx + 1)
        \<and> (idx < num vec \<longrightarrow> num vec' = num vec)
        \<and> (idx < capacity vec \<longrightarrow>
              capacity vec' = capacity vec
              \<and> (\<exists>xs. elems vec = Some xs \<and> unat idx < length xs
                     \<and> elems vec' = Some (xs[unat idx := v])))
        \<and> (capacity vec \<le> idx \<longrightarrow>
              AB_VEC_SIZE_T_ROUNDUP cfg (idx + 1) = Some (capacity vec'))"
    by (auto simp: AB_vec_insert_def AB_vec_at_def load_def store_def
        split: option.splits sum.splits if_splits)
  from all show "r = v" by simp
  from all show "AB_vec_at vec' idx = Inr v" by simp
  from all show "num vec \<le> idx \<Longrightarrow> num vec' = idx + 1" by simp
  from all show "idx < num vec \<Longrightarrow> num vec' = num vec" by simp
  from all show "idx < capacity vec \<Longrightarrow> capacity vec' = capacity vec" by simp
  from all show "idx < capacity vec \<Longrightarrow> \<exists>xs. elems vec = Some xs \<and> unat idx < length xs
                     \<and> elems vec' = Some (xs[unat idx := v])" by simp
  from all show "capacity vec \<le> idx \<Longrightarrow>
              AB_VEC_SIZE_T_ROUNDUP cfg (idx + 1) = Some (capacity vec')" by simp
qed

theorem insert_sets_length_and_slot_witness:
  "capacity vec3 \<le> 5
   \<and> AB_VEC_SIZE_T_ROUNDUP int_cfg (5 + 1) = Some 8
   \<and> AB_VEC_REALLOC int_cfg (elems vec3) (sizeof_elem int_cfg * capacity vec3)
         (sizeof_elem int_cfg * 8) (userdata vec3) [] =
       (Some [10, 20, 30, 0, 0, 0, 0, 0], [Realloc_call 16 32 (Some ''v'')])
   \<and> unat (5 :: 64 word) < length [10, 20, 30, 0, 0, 0, 0, 0 :: 32 word]
   \<and> AB_vec_insert int_cfg vec3 5 99 [] =
       Some (Inr (99, \<lparr>num = 6, capacity = 8, elems = Some [10, 20, 30, 0, 0, 99, 0, 0],
                       userdata = Some ''v''\<rparr>, [Realloc_call 16 32 (Some ''v'')]))
   \<and> 1 < capacity vec3
   \<and> elems vec3 = Some [10, 20, 30, 0]
   \<and> unat (1 :: 64 word) < length [10, 20, 30, 0 :: 32 word]
   \<and> AB_vec_insert int_cfg vec3 1 99 [] =
       Some (Inr (99, \<lparr>num = 3, capacity = 4, elems = Some [10, 99, 30, 0],
                       userdata = Some ''v''\<rparr>, []))
   \<and> AB_vec_insert_generic int_cfg vec0 19 (sizeof_elem int_cfg) [] =
       Some (Inr (0, \<lparr>num = 20, capacity = 32, elems = Some (replicate 32 0),
                      userdata = None\<rparr>, [Realloc_call 0 128 None]))
   \<and> AB_vec_insert int_cfg vec0 19 2 [] = Some (Inr (2, vec_ins19, [Realloc_call 0 128 None]))
   \<and> num vec0 \<le> 19 \<and> capacity vec0 \<le> 19
   \<and> num vec_ins19 = 19 + 1 \<and> AB_vec_at vec_ins19 19 = Inr 2
   \<and> AB_VEC_SIZE_T_ROUNDUP int_cfg (19 + 1) = Some (capacity vec_ins19)"
proof -
  have h1: "capacity vec3 \<le> 5" by (simp add: vec3_def)
  have h2: "AB_VEC_SIZE_T_ROUNDUP int_cfg (5 + 1) = Some 8" by code_simp
  have h3: "AB_VEC_REALLOC int_cfg (elems vec3) (sizeof_elem int_cfg * capacity vec3)
         (sizeof_elem int_cfg * 8) (userdata vec3) [] =
       (Some [10, 20, 30, 0, 0, 0, 0, 0], [Realloc_call 16 32 (Some ''v'')])"
    by code_simp
  have h4: "unat (5 :: 64 word) < length [10, 20, 30, 0, 0, 0, 0, 0 :: 32 word]" by simp
  have k1: "1 < capacity vec3" by (simp add: vec3_def)
  have k2: "elems vec3 = Some [10, 20, 30, 0]" by (simp add: vec3_def)
  have k3: "unat (1 :: 64 word) < length [10, 20, 30, 0 :: 32 word]" by simp
  have g: "AB_vec_insert_generic int_cfg vec0 19 (sizeof_elem int_cfg) [] =
       Some (Inr (0, \<lparr>num = 20, capacity = 32, elems = Some (replicate 32 0),
                      userdata = None\<rparr>, [Realloc_call 0 128 None]))"
    by (simp add: AB_vec_insert_generic_def AB_vec_resize_generic_def AB_VEC_ASSERT_def
        int_cfg_def vec0_def AB_VEC_INIT_def realloc_ok_def AB_vec_roundup_size_t_def
        roundup_loop.simps word_le_nat_alt Let_def)
  have r: "AB_vec_insert int_cfg vec0 19 2 [] =
      Some (Inr (2, vec_ins19, [Realloc_call 0 128 None]))"
    by (simp add: AB_vec_insert_def g store_def vec_ins19_def)
  have n: "num vec0 \<le> 19 \<and> capacity vec0 \<le> 19" by (simp add: vec0_def AB_VEC_INIT_def)
  from insert_sets_length_and_slot
         [where cfg = int_cfg and vec = vec3 and idx = 5 and new_size = 8 and w = "[]"
            and ys = "[10, 20, 30, 0, 0, 0, 0, 0]"
            and ?w1.0 = "[Realloc_call 16 32 (Some ''v'')]" and v = 99]
       h1 h2 h3 h4
  have grow: "AB_vec_insert int_cfg vec3 5 99 [] =
       Some (Inr (99, \<lparr>num = 6, capacity = 8, elems = Some [10, 20, 30, 0, 0, 99, 0, 0],
                       userdata = Some ''v''\<rparr>, [Realloc_call 16 32 (Some ''v'')]))"
    by (simp add: vec3_def word_le_nat_alt)
  from insert_sets_length_and_slot
         [where cfg = int_cfg and vec = vec3 and idx = 1 and w = "[]"
            and xs = "[10, 20, 30, 0]" and v = 99]
       k1 k2 k3
  have over: "AB_vec_insert int_cfg vec3 1 99 [] =
       Some (Inr (99, \<lparr>num = 3, capacity = 4, elems = Some [10, 99, 30, 0],
                       userdata = Some ''v''\<rparr>, []))"
    by (simp add: vec3_def word_le_nat_alt)
  from insert_sets_length_and_slot
         [where cfg = int_cfg and vec = vec0 and idx = 19 and w = "[]" and v = 2
            and ?vec1.0 = "\<lparr>num = 20, capacity = 32, elems = Some (replicate 32 0),
                      userdata = None\<rparr>"
            and ?w2.0 = "[Realloc_call 0 128 None]" and r = 2 and vec' = vec_ins19
            and w' = "[Realloc_call 0 128 None]"]
       g r n
  have fresh: "num vec_ins19 = 19 + 1 \<and> AB_vec_at vec_ins19 19 = Inr 2
      \<and> AB_VEC_SIZE_T_ROUNDUP int_cfg (19 + 1) = Some (capacity vec_ins19)"
    by simp
  from h1 h2 h3 h4 grow k1 k2 k3 over g r n fresh show ?thesis by blast
qed

text \<open>
  The claim as written fails on the vector that a resize of \<open>vec3\<close> to 2 leaves: index 2
  is below the length 3, and the insert changes the capacity from 2 to 4.
\<close>

theorem insert_overwrite_counterexample:
  "(2 :: 64 word) < num vec_shrunk
   \<and> capacity vec_shrunk = 2
   \<and> AB_vec_resize int_cfg vec3 2 [] = Inr (0, vec_shrunk, [Realloc_call 16 8 (Some ''v'')])
   \<and> AB_vec_insert_generic int_cfg vec_shrunk 2 (sizeof_elem int_cfg) [] =
       Some (Inr (0, \<lparr>num = 3, capacity = 4, elems = Some [10, 20, 0, 0],
                      userdata = Some ''v''\<rparr>, [Realloc_call 8 16 (Some ''v'')]))
   \<and> AB_vec_insert int_cfg vec_shrunk 2 99 [] =
       Some (Inr (99, \<lparr>num = 3, capacity = 4, elems = Some [10, 20, 99, 0],
                       userdata = Some ''v''\<rparr>, [Realloc_call 8 16 (Some ''v'')]))"
  by code_simp

text \<open>
  Claim C4, as the code has it.  When the growth step of an insert is reached
  (\<open>capacity \<le> idx\<close>) and the allocation hook returns \<^verbatim>\<open>NULL\<close>: with \<^verbatim>\<open>AB_VEC_ASSERT\<close>
  compiled out the insert returns 1 and the vector, with its length, capacity and elements,
  is the one before the call; with the assertion in force, as by default, the program stops
  at \<^verbatim>\<open>AB_VEC_ASSERT(new_elems != NULL)\<close> and nothing is returned to the caller.
\<close>

theorem insert_allocation_failure:
  assumes "capacity vec \<le> idx"
      and "AB_VEC_SIZE_T_ROUNDUP cfg (idx + 1) = Some new_size"
      and "AB_VEC_REALLOC cfg (elems vec) (sizeof_elem cfg * capacity vec)
             (sizeof_elem cfg * new_size) (userdata vec) w = (None, w')"
  shows "AB_vec_insert cfg vec idx v w =
           Some (if assert_enabled cfg then Inl AssertFailed else Inr (1, vec, w'))"
  using assms
  by (simp add: AB_vec_insert_def AB_vec_insert_generic_def AB_vec_resize_generic_def
      AB_VEC_ASSERT_def Let_def)

theorem insert_allocation_failure_witness:
  "capacity vec3 \<le> 19
   \<and> AB_VEC_SIZE_T_ROUNDUP oom_release_cfg (19 + 1) = Some 32
   \<and> AB_VEC_REALLOC oom_release_cfg (elems vec3) (sizeof_elem oom_release_cfg * capacity vec3)
        (sizeof_elem oom_release_cfg * 32) (userdata vec3) [] = (None, [])
   \<and> \<not> assert_enabled oom_release_cfg
   \<and> AB_vec_insert oom_release_cfg vec3 19 2 [] = Some (Inr (1, vec3, []))"
proof -
  have h1: "capacity vec3 \<le> 19" by (simp add: vec3_def)
  have h2: "AB_VEC_SIZE_T_ROUNDUP oom_release_cfg (19 + 1) = Some 32"
    by (simp add: int_cfg_def oom_release_cfg_def release_cfg_def AB_vec_roundup_size_t_def
        roundup_loop.simps word_le_nat_alt)
  have h3: "AB_VEC_REALLOC oom_release_cfg (elems vec3)
        (sizeof_elem oom_release_cfg * capacity vec3)
        (sizeof_elem oom_release_cfg * 32) (userdata vec3) [] = (None, [])"
    by (simp add: oom_release_cfg_def out_of_memory_def)
  have h4: "\<not> assert_enabled oom_release_cfg"
    by (simp add: oom_release_cfg_def release_cfg_def)
  from insert_allocation_failure [OF h1 h2 h3, of 2] h1 h2 h3 h4 show ?thesis by simp
qed

text \<open>
  The claim as written fails in the header's default configuration: the allocation fails and
  the insert does not return.
\<close>

theorem insert_allocation_failure_counterexample:
  "assert_enabled oom_cfg
   \<and> capacity vec0 \<le> 19
   \<and> fst (AB_VEC_REALLOC oom_cfg (elems vec0) (sizeof_elem oom_cfg * capacity vec0)
           (sizeof_elem oom_cfg * 32) (userdata vec0) []) = None
   \<and> AB_vec_insert oom_cfg vec0 19 2 [] = Some (Inl AssertFailed)"
  by (simp add: AB_vec_insert_def AB_vec_insert_generic_def AB_vec_resize_generic_def
      AB_VEC_ASSERT_def int_cfg_def oom_cfg_def vec0_def AB_VEC_INIT_def out_of_memory_def
      AB_vec_roundup_size_t_def roundup_loop.simps word_le_nat_alt Let_def)

text \<open>
  Claim C10, as the code has it.  The value of the expression \<open>AB_vec_insert\<close>.  On
  success (the storage is large enough, or the hook grows it) the element is stored and the
  value is the element, not the 0 that \<open>AB_vec_insert_generic\<close> returns.  When the allocation of the growth step fails, the value is
  1 and the vector is untouched if \<^verbatim>\<open>AB_VEC_ASSERT\<close> is compiled out; with the assertion
  of the header in force the program stops and the expression has no value.  Every value
  the expression has is the element, or the 1 of a failed allocation.  So with the
  assertion compiled out a successful insert of the element 1 and a failed insert have the
  same value.
\<close>

theorem insert_value_is_element_or_one:
  "(idx < capacity vec \<and> elems vec = Some xs \<and> unat idx < length xs \<longrightarrow>
      (\<exists>vec'. AB_vec_insert cfg vec idx v w = Some (Inr (v, vec', w))
              \<and> AB_vec_at vec' idx = Inr v))
   \<and> (capacity vec \<le> idx \<and> AB_VEC_SIZE_T_ROUNDUP cfg (idx + 1) = Some new_size
        \<and> AB_VEC_REALLOC cfg (elems vec) (sizeof_elem cfg * capacity vec)
              (sizeof_elem cfg * new_size) (userdata vec) w = (Some ys, w1)
        \<and> unat idx < length ys \<longrightarrow>
      (\<exists>vec'. AB_vec_insert cfg vec idx v w = Some (Inr (v, vec', w1))
              \<and> AB_vec_at vec' idx = Inr v))
   \<and> (capacity vec \<le> idx \<and> AB_VEC_SIZE_T_ROUNDUP cfg (idx + 1) = Some new_size
        \<and> AB_VEC_REALLOC cfg (elems vec) (sizeof_elem cfg * capacity vec)
              (sizeof_elem cfg * new_size) (userdata vec) w = (None, w1) \<longrightarrow>
      AB_vec_insert cfg vec idx v w =
        Some (if assert_enabled cfg then Inl AssertFailed else Inr (1, vec, w1)))
   \<and> (AB_vec_insert cfg vec idx v w = Some (Inr (x, vec', w')) \<longrightarrow>
      (x = v \<and> AB_vec_at vec' idx = Inr v)
      \<or> (x = 1 \<and> vec' = vec \<and> \<not> assert_enabled cfg \<and> capacity vec \<le> idx
          \<and> (\<exists>n. AB_VEC_SIZE_T_ROUNDUP cfg (idx + 1) = Some n
                \<and> fst (AB_VEC_REALLOC cfg (elems vec) (sizeof_elem cfg * capacity vec)
                        (sizeof_elem cfg * n) (userdata vec) w) = None)))"
proof (intro conjI impI)
  assume "idx < capacity vec \<and> elems vec = Some xs \<and> unat idx < length xs"
  then have h: "idx < capacity vec" "elems vec = Some xs" "unat idx < length xs" by simp_all
  from insert_no_growth [OF h, of cfg v w] h(3)
  show "\<exists>vec'. AB_vec_insert cfg vec idx v w = Some (Inr (v, vec', w))
              \<and> AB_vec_at vec' idx = Inr v"
    by (simp add: AB_vec_at_def load_def)
next
  assume "capacity vec \<le> idx \<and> AB_VEC_SIZE_T_ROUNDUP cfg (idx + 1) = Some new_size
        \<and> AB_VEC_REALLOC cfg (elems vec) (sizeof_elem cfg * capacity vec)
              (sizeof_elem cfg * new_size) (userdata vec) w = (Some ys, w1)
        \<and> unat idx < length ys"
  then have h: "capacity vec \<le> idx" "AB_VEC_SIZE_T_ROUNDUP cfg (idx + 1) = Some new_size"
    "AB_VEC_REALLOC cfg (elems vec) (sizeof_elem cfg * capacity vec)
        (sizeof_elem cfg * new_size) (userdata vec) w = (Some ys, w1)"
    "unat idx < length ys" by simp_all
  from insert_growth_ok [OF h, of v] h(4)
  show "\<exists>vec'. AB_vec_insert cfg vec idx v w = Some (Inr (v, vec', w1))
              \<and> AB_vec_at vec' idx = Inr v"
    by (simp add: AB_vec_at_def load_def)
next
  assume "capacity vec \<le> idx \<and> AB_VEC_SIZE_T_ROUNDUP cfg (idx + 1) = Some new_size
        \<and> AB_VEC_REALLOC cfg (elems vec) (sizeof_elem cfg * capacity vec)
              (sizeof_elem cfg * new_size) (userdata vec) w = (None, w1)"
  then have h: "capacity vec \<le> idx" "AB_VEC_SIZE_T_ROUNDUP cfg (idx + 1) = Some new_size"
    "AB_VEC_REALLOC cfg (elems vec) (sizeof_elem cfg * capacity vec)
        (sizeof_elem cfg * new_size) (userdata vec) w = (None, w1)" by simp_all
  show "AB_vec_insert cfg vec idx v w =
        Some (if assert_enabled cfg then Inl AssertFailed else Inr (1, vec, w1))"
    by (rule insert_growth_fails [OF h])
next
  assume run: "AB_vec_insert cfg vec idx v w = Some (Inr (x, vec', w'))"
  then obtain r vec1 where
    gen: "AB_vec_insert_generic cfg vec idx (sizeof_elem cfg) w = Some (Inr (r, vec1, w'))"
    by (auto simp: AB_vec_insert_def split: option.splits sum.splits if_splits)
  from insert_generic_cases [OF gen] run gen
  show "(x = v \<and> AB_vec_at vec' idx = Inr v)
      \<or> (x = 1 \<and> vec' = vec \<and> \<not> assert_enabled cfg \<and> capacity vec \<le> idx
          \<and> (\<exists>n. AB_VEC_SIZE_T_ROUNDUP cfg (idx + 1) = Some n
                \<and> fst (AB_VEC_REALLOC cfg (elems vec) (sizeof_elem cfg * capacity vec)
                        (sizeof_elem cfg * n) (userdata vec) w) = None))"
    by (auto simp: AB_vec_insert_def AB_vec_at_def load_def store_def
        split: option.splits sum.splits if_splits)
qed

theorem insert_value_is_element_or_one_witness:
  "1 < capacity vec3
   \<and> elems vec3 = Some [10, 20, 30, 0]
   \<and> unat (1 :: 64 word) < length [10, 20, 30, 0 :: 32 word]
   \<and> AB_vec_insert release_cfg vec3 1 1 [] =
       Some (Inr (1, \<lparr>num = 3, capacity = 4, elems = Some [10, 1, 30, 0],
                      userdata = Some ''v''\<rparr>, []))
   \<and> capacity vec3 \<le> 5
   \<and> AB_VEC_SIZE_T_ROUNDUP release_cfg (5 + 1) = Some 8
   \<and> AB_VEC_REALLOC release_cfg (elems vec3) (sizeof_elem release_cfg * capacity vec3)
         (sizeof_elem release_cfg * 8) (userdata vec3) [] =
       (Some [10, 20, 30, 0, 0, 0, 0, 0], [Realloc_call 16 32 (Some ''v'')])
   \<and> unat (5 :: 64 word) < length [10, 20, 30, 0, 0, 0, 0, 0 :: 32 word]
   \<and> AB_vec_insert release_cfg vec3 5 1 [] =
       Some (Inr (1, \<lparr>num = 6, capacity = 8, elems = Some [10, 20, 30, 0, 0, 1, 0, 0],
                      userdata = Some ''v''\<rparr>, [Realloc_call 16 32 (Some ''v'')]))
   \<and> capacity vec3 \<le> 19
   \<and> AB_VEC_SIZE_T_ROUNDUP oom_release_cfg (19 + 1) = Some 32
   \<and> AB_VEC_REALLOC oom_release_cfg (elems vec3)
         (sizeof_elem oom_release_cfg * capacity vec3)
         (sizeof_elem oom_release_cfg * 32) (userdata vec3) [] = (None, [])
   \<and> \<not> assert_enabled oom_release_cfg
   \<and> AB_vec_insert oom_release_cfg vec3 19 1 [] = Some (Inr (1, vec3, []))"
proof -
  have k1: "1 < capacity vec3" by (simp add: vec3_def)
  have k2: "elems vec3 = Some [10, 20, 30, 0]" by (simp add: vec3_def)
  have k3: "unat (1 :: 64 word) < length [10, 20, 30, 0 :: 32 word]" by simp
  have over: "AB_vec_insert release_cfg vec3 1 1 [] =
       Some (Inr (1, \<lparr>num = 3, capacity = 4, elems = Some [10, 1, 30, 0],
                      userdata = Some ''v''\<rparr>, []))"
    by code_simp
  have h1: "capacity vec3 \<le> 5" by (simp add: vec3_def)
  have h2: "AB_VEC_SIZE_T_ROUNDUP release_cfg (5 + 1) = Some 8" by code_simp
  have h3: "AB_VEC_REALLOC release_cfg (elems vec3) (sizeof_elem release_cfg * capacity vec3)
         (sizeof_elem release_cfg * 8) (userdata vec3) [] =
       (Some [10, 20, 30, 0, 0, 0, 0, 0], [Realloc_call 16 32 (Some ''v'')])"
    by code_simp
  have h4: "unat (5 :: 64 word) < length [10, 20, 30, 0, 0, 0, 0, 0 :: 32 word]" by simp
  have grow: "AB_vec_insert release_cfg vec3 5 1 [] =
       Some (Inr (1, \<lparr>num = 6, capacity = 8, elems = Some [10, 20, 30, 0, 0, 1, 0, 0],
                      userdata = Some ''v''\<rparr>, [Realloc_call 16 32 (Some ''v'')]))"
    by code_simp
  have f1: "capacity vec3 \<le> 19" by (simp add: vec3_def)
  have f2: "AB_VEC_SIZE_T_ROUNDUP oom_release_cfg (19 + 1) = Some 32" by code_simp
  have f3: "AB_VEC_REALLOC oom_release_cfg (elems vec3)
         (sizeof_elem oom_release_cfg * capacity vec3)
         (sizeof_elem oom_release_cfg * 32) (userdata vec3) [] = (None, [])"
    by (simp add: oom_release_cfg_def out_of_memory_def)
  have f4: "\<not> assert_enabled oom_release_cfg"
    by (simp add: oom_release_cfg_def release_cfg_def)
  from insert_value_is_element_or_one
         [where cfg = oom_release_cfg and vec = vec3 and idx = 19 and new_size = 32
            and w = "[]" and ?w1.0 = "[]" and v = 1]
       f1 f2 f3 f4
  have fail: "AB_vec_insert oom_release_cfg vec3 19 1 [] = Some (Inr (1, vec3, []))"
    by simp
  from k1 k2 k3 over h1 h2 h3 h4 grow f1 f2 f3 f4 fail show ?thesis by blast
qed

text \<open>
  The claim as written fails in the header's default configuration: the allocation fails
  and the expression does not evaluate to 1, the program stops at the assertion.
\<close>

theorem insert_value_counterexample:
  "assert_enabled oom_cfg
   \<and> capacity vec3 \<le> 19
   \<and> AB_VEC_SIZE_T_ROUNDUP oom_cfg (19 + 1) = Some 32
   \<and> fst (AB_VEC_REALLOC oom_cfg (elems vec3) (sizeof_elem oom_cfg * capacity vec3)
           (sizeof_elem oom_cfg * 32) (userdata vec3) []) = None
   \<and> AB_vec_insert oom_cfg vec3 19 1 [] = Some (Inl AssertFailed)"
  by code_simp

subsection \<open>The default round-up\<close>

text \<open>
  What the loop computes.  For \<open>0 < x < 2 ^ (w - 1)\<close> on a size type of \<open>w\<close> bits the
  function returns the power of two \<open>2 ^ k\<close> with \<open>x < 2 ^ k \<le> 2 * x\<close>, the smallest one
  strictly above \<open>x\<close>; for \<open>x \<ge> 2 ^ (w - 1)\<close> the doubling wraps to 0 and the loop never
  ends.
\<close>

lemma unat_pow2:
  assumes "j < LENGTH('s::len)"
  shows "unat (2 ^ j :: 's word) = 2 ^ j"
proof -
  have "unat (of_nat (2 ^ j) :: 's word) = 2 ^ j mod 2 ^ LENGTH('s)" by (rule unat_of_nat)
  moreover from assms have "(2::nat) ^ j < 2 ^ LENGTH('s)" by simp
  ultimately show ?thesis by simp
qed

lemma roundup_loop_returns:
  fixes x :: "'s::len word"
  assumes "unat x < 2 ^ (LENGTH('s) - 1)" "j = 0 \<or> 2 ^ (j - 1) \<le> unat x" "j \<le> LENGTH('s) - 1"
  shows "\<exists>k. roundup_loop x (2 ^ j) = Some (2 ^ k) \<and> k \<le> LENGTH('s) - 1 \<and> unat x < 2 ^ k
             \<and> (k = 0 \<or> 2 ^ (k - 1) \<le> unat x)"
  using assms
proof (induction "LENGTH('s) - 1 - j" arbitrary: j)
  case 0
  then have j: "j = LENGTH('s) - 1" by simp
  then have "j < LENGTH('s)" by simp
  then have u: "unat (2 ^ j :: 's word) = 2 ^ j" by (rule unat_pow2)
  with "0.prems"(1) j have "\<not> (2 ^ j \<le> x)" by (simp add: word_le_nat_alt)
  then have "roundup_loop x (2 ^ j) = Some (2 ^ j)" by (subst roundup_loop.simps) simp
  with "0.prems" j show ?case by (intro exI [of _ j]) simp
next
  case (Suc d)
  then have jl: "j < LENGTH('s) - 1" by simp
  then have "j < LENGTH('s)" by simp
  then have u: "unat (2 ^ j :: 's word) = 2 ^ j" by (rule unat_pow2)
  show ?case
  proof (cases "(2 ^ j :: 's word) \<le> x")
    case True
    then have le: "2 ^ j \<le> unat x" using u by (simp add: word_le_nat_alt)
    have dbl: "(2 :: 's word) ^ j + 2 ^ j = 2 ^ Suc j" by (simp only: power_Suc mult_2)
    have step: "roundup_loop x (2 ^ j) = roundup_loop x (2 ^ Suc j)"
      by (subst roundup_loop.simps) (simp only: True if_True dbl)
    from Suc.hyps(2) have d: "d = LENGTH('s) - 1 - Suc j" by simp
    from le have "Suc j = 0 \<or> 2 ^ (Suc j - 1) \<le> unat x" by simp
    moreover from jl have "Suc j \<le> LENGTH('s) - 1" by simp
    ultimately have "\<exists>k. roundup_loop x (2 ^ Suc j) = Some (2 ^ k) \<and> k \<le> LENGTH('s) - 1
        \<and> unat x < 2 ^ k \<and> (k = 0 \<or> 2 ^ (k - 1) \<le> unat x)"
      using Suc.hyps(1) [OF d Suc.prems(1)] by blast
    with step show ?thesis by simp
  next
    case False
    then have "unat x < 2 ^ j" using u by (simp add: word_le_nat_alt)
    moreover from False have "roundup_loop x (2 ^ j) = Some (2 ^ j)"
      by (subst roundup_loop.simps) simp
    ultimately show ?thesis using Suc.prems jl by (intro exI [of _ j]) simp
  qed
qed

lemma default_roundup_in_range:
  fixes x :: "'s::len word"
  assumes pos: "0 < x" and rng: "unat x < 2 ^ (LENGTH('s) - 1)"
  shows "\<exists>k. AB_vec_roundup_size_t x = Some (2 ^ k) \<and> k < LENGTH('s)
             \<and> unat x < 2 ^ k \<and> 2 ^ k \<le> 2 * unat x"
proof -
  from roundup_loop_returns [OF rng, of 0] obtain k where
    k: "roundup_loop x (2 ^ 0) = Some (2 ^ k)" "k \<le> LENGTH('s) - 1" "unat x < 2 ^ k"
       "k = 0 \<or> 2 ^ (k - 1) \<le> unat x"
    by auto
  from pos have x1: "1 \<le> unat x" by (simp add: word_less_nat_alt)
  with k(3) have "k \<noteq> 0" by (cases k) auto
  with k(4) have "2 ^ (k - 1) \<le> unat x" by simp
  then have "2 * 2 ^ (k - 1) \<le> 2 * unat x" by simp
  with \<open>k \<noteq> 0\<close> have "2 ^ k \<le> 2 * unat x" by (cases k) auto
  moreover have "k < LENGTH('s)"
  proof -
    have "0 < LENGTH('s)" by simp
    with k(2) show ?thesis by linarith
  qed
  moreover from pos have "x \<noteq> 0" by auto
  with k(1) have "AB_vec_roundup_size_t x = Some (2 ^ k)"
    by (simp add: AB_vec_roundup_size_t_def)
  ultimately show ?thesis using k(3) by blast
qed

lemma roundup_loop_diverges_aux:
  fixes x :: "'s::len word"
  assumes ret: "roundup_loop x y = Some r"
  shows "\<not> (2 ^ (LENGTH('s) - 1) \<le> unat x \<and> (y = 0 \<or> (\<exists>j<LENGTH('s). y = 2 ^ j)))"
proof -
  let ?Q = "\<lambda>(x :: 's word) (y :: 's word) (r :: 's word).
      \<not> (2 ^ (LENGTH('s) - 1) \<le> unat x \<and> (y = 0 \<or> (\<exists>j<LENGTH('s). y = 2 ^ j)))"
  have "(case (x, y) of (a, b) \<Rightarrow> ?Q a b) r"
  proof (rule roundup_loop.raw_induct [where xa = "(x, y)" and ya = r and P = ?Q])
    show "(case (x, y) of (a, b) \<Rightarrow> roundup_loop a b) = Some r" using ret by simp
  next
    fix f :: "'s word \<Rightarrow> 's word \<Rightarrow> 's word option" and x y r :: "'s word"
    assume IH: "\<And>a b c. f a b = Some c \<Longrightarrow> ?Q a b c"
       and body: "(if y \<le> x then f x (y + y) else Some y) = Some r"
    show "?Q x y r"
    proof
      assume a: "2 ^ (LENGTH('s) - 1) \<le> unat x \<and> (y = 0 \<or> (\<exists>j<LENGTH('s). y = 2 ^ j))"
      then have big: "2 ^ (LENGTH('s) - 1) \<le> unat x" by simp
      have le: "y \<le> x"
      proof (cases "y = 0")
        case True then show ?thesis by simp
      next
        case False
        with a obtain j where j: "j < LENGTH('s)" "y = 2 ^ j" by auto
        then have "unat y = 2 ^ j" by (simp add: unat_pow2)
        moreover from j(1) have "(2::nat) ^ j \<le> 2 ^ (LENGTH('s) - 1)"
          by (intro power_increasing) auto
        ultimately have "unat y \<le> unat x" using big by linarith
        then show ?thesis by (simp only: word_le_nat_alt)
      qed
      have next_in: "y + y = 0 \<or> (\<exists>j<LENGTH('s). y + y = 2 ^ j)"
      proof (cases "y = 0")
        case True then show ?thesis by simp
      next
        case False
        with a obtain j where j: "j < LENGTH('s)" "y = 2 ^ j" by auto
        then have yy: "y + y = 2 ^ Suc j" by (simp only: power_Suc mult_2)
        show ?thesis
        proof (cases "Suc j < LENGTH('s)")
          case True
          with yy show ?thesis by blast
        next
          case False
          then have "(2 :: 's word) ^ Suc j = 0" by (simp only: exp_eq_zero_iff not_less)
          with yy have "y + y = 0" by (simp only:)
          then show ?thesis by (rule disjI1)
        qed
      qed
      from le body have "f x (y + y) = Some r" by simp
      from IH [OF this] big next_in show False by blast
    qed
  qed
  then show ?thesis by simp
qed

lemma default_roundup_diverges:
  fixes x :: "'s::len word"
  assumes "2 ^ (LENGTH('s) - 1) \<le> unat x"
  shows "AB_vec_roundup_size_t x = None"
proof -
  have "0 < (2::nat) ^ (LENGTH('s) - 1)" by simp
  with assms have "0 < unat x" by linarith
  then have "x \<noteq> 0" by (simp add: unat_gt_0)
  moreover have "roundup_loop x 1 = None"
  proof (cases "roundup_loop x 1")
    case None then show ?thesis .
  next
    case (Some r)
    from roundup_loop_diverges_aux [OF Some] assms
    have no: "\<not> (\<exists>j<LENGTH('s). (1 :: 's word) = 2 ^ j)" by simp
    have "(0::nat) < LENGTH('s) \<and> (1 :: 's word) = 2 ^ 0" by simp
    then have "\<exists>j<LENGTH('s). (1 :: 's word) = 2 ^ j" by (rule exI)
    with no show ?thesis by (rule notE)
  qed
  ultimately show ?thesis unfolding AB_vec_roundup_size_t_def by (simp only: if_False)
qed

text \<open>
  Claim C2 at \<open>x = 1\<close>, on a 64-bit \<^verbatim>\<open>size_t\<close>.  The loop condition is \<^verbatim>\<open>y <= x\<close>, so the
  function returns 2 for 1 and 4 for 2: the result for 1 is not \<open>2 ^ 0\<close>, the smallest power
  of two that is at least 1, and rounding the result up again changes it.  The round-up of the
  second driver, written for the same macro, returns 1 for 1 and 2 for 2.
\<close>

theorem default_roundup_at_one:
  "AB_vec_roundup_size_t (1 :: 64 word) = Some 2
   \<and> AB_vec_roundup_size_t (1 :: 64 word) \<noteq> Some (2 ^ 0)
   \<and> AB_vec_roundup_size_t (2 :: 64 word) = Some 4
   \<and> AB_vec_roundup_size_t (0 :: 64 word) = Some 0
   \<and> my_roundup 1 = 1 \<and> my_roundup 2 = 2"
  by (simp add: AB_vec_roundup_size_t_def roundup_loop.simps word_le_nat_alt my_roundup_def)

subsection \<open>Push and pop\<close>

lemma push_ok_cases:
  assumes "AB_vec_push cfg vec x w = Inr (0, vec', w')"
  shows "\<exists>ys. unat (num vec) < length ys
           \<and> elems vec' = Some (ys[unat (num vec) := x])
           \<and> num vec' = num vec + 1
           \<and> userdata vec' = userdata vec
           \<and> capacity vec' = (if num vec = capacity vec
                               then (if capacity vec \<noteq> 0 then push_bit 1 (capacity vec) else 2)
                               else capacity vec)
           \<and> (if num vec = capacity vec
                then (\<exists>old_size new_size. AB_VEC_REALLOC cfg (elems vec) old_size new_size (userdata vec) w = (Some ys, w'))
                else elems vec = Some ys \<and> w' = w)"
proof (cases "num vec = capacity vec")
  case True
  let ?c = "if capacity vec \<noteq> 0 then push_bit 1 (capacity vec) else 2"
  from assms True have
    "\<exists>vec1 w1. AB_vec_resize_generic cfg vec ?c (sizeof_elem cfg) w = Inr (0, vec1, w1)
        \<and> store_at_num vec1 x w1 = Inr (0, vec', w')"
    unfolding AB_vec_push_def AB_vec_resize_def
    by (auto split: sum.splits if_splits)
  then obtain vec1 w1 where
    rs: "AB_vec_resize_generic cfg vec ?c (sizeof_elem cfg) w = Inr (0, vec1, w1)"
    and st: "store_at_num vec1 x w1 = Inr (0, vec', w')"
    by blast
  from resize_generic_cases [OF rs] obtain ys where
    ys: "AB_VEC_REALLOC cfg (elems vec) (sizeof_elem cfg * capacity vec)
           (sizeof_elem cfg * ?c) (userdata vec) w = (Some ys, w1)"
    and vec1: "vec1 = vec\<lparr>elems := Some ys, capacity := ?c\<rparr>"
    by auto
  from store_at_num_cases [OF st] vec1 have
    "w' = w1" "unat (num vec) < length ys"
    "vec' = vec1\<lparr>elems := Some (ys[unat (num vec) := x]), num := num vec + 1\<rparr>"
    by auto
  with True ys vec1 show ?thesis
    by (intro exI [of _ ys]) auto
next
  case False
  with assms have st: "store_at_num vec x w = Inr (0, vec', w')"
    by (simp add: AB_vec_push_def)
  from store_at_num_cases [OF st] obtain xs where
    "w' = w" "elems vec = Some xs" "unat (num vec) < length xs"
    "vec' = vec\<lparr>elems := Some (xs[unat (num vec) := x]), num := num vec + 1\<rparr>"
    by auto
  with False show ?thesis
    by (intro exI [of _ xs]) auto
qed

text \<open>A successful \<^verbatim>\<open>realloc\<close> keeps the contents of the block.\<close>

lemma realloc_ok_keeps_contents: "realloc_keeps_contents int_cfg"
  by (auto simp: realloc_keeps_contents_def int_cfg_def realloc_ok_def slots_def Let_def
      nth_append split: option.splits)

text \<open>
  Claim C5.  After a push of \<open>v\<close> that returned 0, a pop returns \<open>v\<close>, the length is the
  one before the push, and every element that could be read below the old length reads the
  same.  The allocation hook is taken to keep the contents of a block it resizes (the
  contract of \<^verbatim>\<open>realloc\<close>), and the length to be below the maximum of the size type, so
  that \<open>num + 1\<close> does not wrap.
\<close>

theorem pop_undoes_push:
  assumes push: "AB_vec_push cfg vec v w = Inr (0, vec1, w1)"
      and keeps: "realloc_keeps_contents cfg"
      and room: "num vec + 1 \<noteq> 0"
  shows "\<exists>vec2. AB_vec_pop cfg vec1 = Inr (v, vec2) \<and> num vec2 = num vec
           \<and> (\<forall>i y. i < num vec \<and> AB_vec_at vec i = Inr y \<longrightarrow> AB_vec_at vec2 i = Inr y)"
proof -
  from push_ok_cases [OF push] obtain ys where
    len: "unat (num vec) < length ys" and
    el1: "elems vec1 = Some (ys[unat (num vec) := v])" and
    num1: "num vec1 = num vec + 1" and
    src: "if num vec = capacity vec
          then (\<exists>old_size new_size. AB_VEC_REALLOC cfg (elems vec) old_size new_size (userdata vec) w = (Some ys, w1))
          else elems vec = Some ys \<and> w1 = w"
    by blast
  let ?vec2 = "vec1\<lparr>num := num vec1 - 1\<rparr>"
  have pos: "0 < num vec1" using room num1 by (simp add: word_greater_zero_iff)
  have pop: "AB_vec_pop cfg vec1 = Inr (v, ?vec2)"
    using pos len el1 num1 by (simp add: AB_vec_pop_def AB_VEC_ASSERT_def Let_def load_def)
  have old: "ys ! i = xs ! i" if xs: "elems vec = Some xs" and i: "i < length xs" "i < length ys" for i xs
  proof (cases "num vec = capacity vec")
    case True
    with src obtain old_size new_size where
      "AB_VEC_REALLOC cfg (elems vec) old_size new_size (userdata vec) w = (Some ys, w1)" by auto
    then have "fst (AB_VEC_REALLOC cfg (elems vec) old_size new_size (userdata vec) w) = Some ys" by simp
    with keeps have "\<forall>i. i < slots (elems vec) \<and> i < length ys \<longrightarrow> ys ! i = the (elems vec) ! i"
      unfolding realloc_keeps_contents_def by blast
    with xs i show ?thesis by (simp add: slots_def)
  next
    case False
    with src xs show ?thesis by simp
  qed
  have prior: "\<forall>i y. i < num vec \<and> AB_vec_at vec i = Inr y \<longrightarrow> AB_vec_at ?vec2 i = Inr y"
  proof (intro allI impI, elim conjE)
    fix i y assume i: "i < num vec" and at: "AB_vec_at vec i = Inr y"
    from at obtain xs where xs: "elems vec = Some xs" "unat i < length xs" "xs ! unat i = y"
      by (auto simp: AB_vec_at_def load_def split: option.splits if_splits)
    from i have lt: "unat i < unat (num vec)" by (simp add: word_less_nat_alt)
    with len have "unat i < length ys" by simp
    with old [OF xs(1) xs(2)] xs(3) lt len show "AB_vec_at ?vec2 i = Inr y"
      by (simp add: AB_vec_at_def load_def el1)
  qed
  from pop prior num1 show ?thesis by auto
qed


theorem pop_undoes_push_witness:
  "AB_vec_push int_cfg vec_full 30 [] =
     Inr (0, \<lparr>num = 3, capacity = 4, elems = Some [10, 20, 30, 0], userdata = None\<rparr>,
          [Realloc_call 8 16 None])
   \<and> realloc_keeps_contents int_cfg
   \<and> num vec_full + 1 \<noteq> 0
   \<and> AB_vec_pop int_cfg
         \<lparr>num = 3, capacity = 4, elems = Some [10, 20, 30, 0], userdata = None\<rparr>
       = Inr (30, \<lparr>num = 2, capacity = 4, elems = Some [10, 20, 30, 0], userdata = None\<rparr>)
   \<and> num vec_full = 2
   \<and> AB_vec_at vec_full 0 = Inr 10 \<and> AB_vec_at vec_full 1 = Inr 20
   \<and> AB_vec_at \<lparr>num = 2, capacity = 4, elems = Some [10, 20, 30, 0 :: 32 word],
                  userdata = None :: string option\<rparr> (0 :: 64 word) = Inr 10
   \<and> AB_vec_at \<lparr>num = 2, capacity = 4, elems = Some [10, 20, 30, 0 :: 32 word],
                  userdata = None :: string option\<rparr> (1 :: 64 word) = Inr 20"
proof -
  have run: "AB_vec_push int_cfg vec_full 30 [] =
     Inr (0, \<lparr>num = 3, capacity = 4, elems = Some [10, 20, 30, 0], userdata = None\<rparr>,
          [Realloc_call 8 16 None])"
    by code_simp
  have room: "num vec_full + 1 \<noteq> 0" by (simp add: vec_full_def)
  have pop: "AB_vec_pop int_cfg
         \<lparr>num = 3, capacity = 4, elems = Some [10, 20, 30, 0], userdata = None\<rparr>
       = Inr (30, \<lparr>num = 2, capacity = 4, elems = Some [10, 20, 30, 0], userdata = None\<rparr>)"
    by code_simp
  have at: "AB_vec_at vec_full 0 = Inr 10 \<and> AB_vec_at vec_full 1 = Inr 20"
    by (simp add: AB_vec_at_def load_def vec_full_def)
  from pop_undoes_push [OF run realloc_ok_keeps_contents room] run
    realloc_ok_keeps_contents room pop at
  show ?thesis by (simp add: vec_full_def AB_vec_at_def load_def)
qed

subsection \<open>Capacity under repeated push\<close>

lemma half_range: "(2::nat) ^ (LENGTH('s::len) - 1) < 2 ^ LENGTH('s)"
  by simp

lemma unat_two:
  assumes "(2::nat) \<le> 2 ^ (LENGTH('s::len) - 1)"
  shows "unat (2 :: 's word) = 2"
proof -
  from assms have lt: "(2::nat) < 2 ^ LENGTH('s)"
    by (rule le_less_trans) (rule half_range)
  have "unat (of_nat 2 :: 's word) = 2 mod 2 ^ LENGTH('s)" by (rule unat_of_nat)
  with lt show ?thesis by simp
qed

lemma unat_succ:
  fixes a :: "'s::len word"
  assumes "Suc (unat a) \<le> 2 ^ (LENGTH('s) - 1)"
  shows "unat (a + 1) = Suc (unat a)"
proof -
  from assms have "Suc (unat a) < 2 ^ LENGTH('s)"
    by (rule le_less_trans) (rule half_range)
  then have "unat a + unat (1 :: 's word) < 2 ^ LENGTH('s)" by simp
  then have "unat (a + 1) = unat a + unat (1 :: 's word)" by (simp only: unat_add_lem)
  then show ?thesis by simp
qed

lemma unat_double:
  fixes a :: "'s::len word"
  assumes "2 * unat a \<le> 2 ^ (LENGTH('s) - 1)" "(2::nat) \<le> 2 ^ (LENGTH('s::len) - 1)"
  shows "unat (push_bit 1 a) = 2 * unat a"
proof -
  have two: "unat (2 :: 's word) = 2" using assms(2) by (rule unat_two)
  from assms(1) have "2 * unat a < 2 ^ LENGTH('s)"
    by (rule le_less_trans) (rule half_range)
  then have lt: "unat a * 2 < 2 ^ LENGTH('s)" by (simp add: mult.commute)
  have "unat a * unat (2 :: 's word) < 2 ^ LENGTH('s)" unfolding two by (rule lt)
  then have "unat (a * 2) = unat a * unat (2 :: 's word)" by (simp only: unat_mult_lem)
  then have "unat (a * 2) = unat a * 2" unfolding two .
  moreover have "push_bit 1 a = a * 2" by (simp add: push_bit_eq_mult)
  ultimately show ?thesis by (simp only: mult.commute)
qed

lemma push_inv_step:
  fixes v :: "('s::len, 'e, 'u) AB_vector_generic"
  assumes push: "AB_vec_push cfg v x w = Inr (0, v', w')"
      and n: "unat (num v) = n"
      and inv: "if n = 0 then capacity v = 0
                else \<exists>k\<ge>1. unat (capacity v) = 2 ^ k \<and> n \<le> 2 ^ k \<and> (k = 1 \<or> 2 ^ (k - 1) < n)"
      and rng: "max 2 (Suc n) \<le> 2 ^ (LENGTH('s) - 1)"
  shows "unat (num v') = Suc n
         \<and> (\<exists>k\<ge>1. unat (capacity v') = 2 ^ k \<and> Suc n \<le> 2 ^ k \<and> (k = 1 \<or> 2 ^ (k - 1) < Suc n))"
proof -
  from push_ok_cases [OF push] have
    num': "num v' = num v + 1" and
    cap': "capacity v' = (if num v = capacity v
                          then (if capacity v \<noteq> 0 then push_bit 1 (capacity v) else 2)
                          else capacity v)"
    by auto
  from rng n have "Suc (unat (num v)) \<le> 2 ^ (LENGTH('s) - 1)" by simp
  then have numS: "unat (num v') = Suc n" using n num' by (simp add: unat_succ)
  from rng have two: "(2::nat) \<le> 2 ^ (LENGTH('s) - 1)" by simp
  have "\<exists>k\<ge>1. unat (capacity v') = 2 ^ k \<and> Suc n \<le> 2 ^ k \<and> (k = 1 \<or> 2 ^ (k - 1) < Suc n)"
  proof (cases "n = 0")
    case True
    with inv n have "num v = 0" "capacity v = 0" by (simp_all add: unat_eq_0)
    with cap' have "unat (capacity v') = 2 ^ 1" using unat_two [OF two] by simp
    with True show ?thesis by (intro exI [of _ 1]) simp
  next
    case False
    with inv obtain k where k: "1 \<le> k" "unat (capacity v) = 2 ^ k" "n \<le> 2 ^ k"
      "k = 1 \<or> 2 ^ (k - 1) < n" by auto
    show ?thesis
    proof (cases "n = 2 ^ k")
      case True
      with n k(2) have eq: "num v = capacity v" by (simp add: word_unat_eq_iff)
      from k(2) have nz: "capacity v \<noteq> 0" by (auto simp: unat_eq_0 [symmetric])
      from True rng have "2 * unat (capacity v) \<le> 2 ^ (LENGTH('s) - 1)"
      proof -
        from rng have "Suc n \<le> 2 ^ (LENGTH('s) - 1)" by simp
        with True have "(2::nat) ^ k < 2 ^ (LENGTH('s) - 1)" by linarith
        then have "k < LENGTH('s) - 1" by (rule power_less_imp_less_exp [rotated]) simp
        then have "Suc k \<le> LENGTH('s) - 1" by simp
        then have "(2::nat) ^ Suc k \<le> 2 ^ (LENGTH('s) - 1)" by (rule power_increasing) simp
        with k(2) show ?thesis by simp
      qed
      from unat_double [OF this two] eq nz cap' k(2) have "unat (capacity v') = 2 ^ Suc k" by simp
      with True show ?thesis by (intro exI [of _ "Suc k"]) simp
    next
      case False
      with n k(2) have "num v \<noteq> capacity v" by auto
      with cap' k(2) have "unat (capacity v') = 2 ^ k" by simp
      with False k show ?thesis by (intro exI [of _ k]) auto
    qed
  qed
  with numS show ?thesis by simp
qed


lemma push_all_append:
  "push_all cfg v (ys @ zs) w =
     (case push_all cfg v ys w of None \<Rightarrow> None | Some (v1, w1) \<Rightarrow> push_all cfg v1 zs w1)"
  by (induction ys arbitrary: v w) (auto split: sum.splits prod.splits)

lemma push_all_inv:
  fixes v :: "('s::len, 'e, 'u) AB_vector_generic"
  assumes "push_all cfg v xs w = Some (v', w')"
      and "unat (num v) = n"
      and "if n = 0 then capacity v = 0
           else \<exists>k\<ge>1. unat (capacity v) = 2 ^ k \<and> n \<le> 2 ^ k \<and> (k = 1 \<or> 2 ^ (k - 1) < n)"
      and "max 2 (n + length xs) \<le> 2 ^ (LENGTH('s) - 1)"
  shows "unat (num v') = n + length xs
         \<and> (if n + length xs = 0 then capacity v' = 0
            else \<exists>k\<ge>1. unat (capacity v') = 2 ^ k \<and> n + length xs \<le> 2 ^ k
                   \<and> (k = 1 \<or> 2 ^ (k - 1) < n + length xs))"
  using assms
proof (induction xs arbitrary: v w n)
  case Nil
  then show ?case by auto
next
  case (Cons x xs)
  from Cons.prems(1) obtain v1 w1 where
    push: "AB_vec_push cfg v x w = Inr (0, v1, w1)" and
    rest: "push_all cfg v1 xs w1 = Some (v', w')"
    by (auto split: sum.splits prod.splits if_splits)
  from Cons.prems(4) have rng1: "max 2 (Suc n) \<le> 2 ^ (LENGTH('s) - 1)" by simp
  from push_inv_step [OF push Cons.prems(2) Cons.prems(3) rng1] have
    n1: "unat (num v1) = Suc n" and
    inv1: "if Suc n = 0 then capacity v1 = 0
           else \<exists>k\<ge>1. unat (capacity v1) = 2 ^ k \<and> Suc n \<le> 2 ^ k \<and> (k = 1 \<or> 2 ^ (k - 1) < Suc n)"
    by simp_all
  from Cons.prems(4) have rng2: "max 2 (Suc n + length xs) \<le> 2 ^ (LENGTH('s) - 1)" by simp
  from Cons.IH [OF rest n1 inv1 rng2] show ?case by simp
qed

lemma smallest_pow2_geI:
  assumes "1 \<le> k" "n \<le> 2 ^ k" "k = 1 \<or> 2 ^ (k - 1) < n"
  shows "is_smallest_pow2_ge (max 2 n) (2 ^ k)"
  unfolding is_smallest_pow2_ge_def
proof (intro conjI allI impI)
  show "\<exists>j. (2::nat) ^ k = 2 ^ j" by blast
  from assms(1) have "(2::nat) ^ 1 \<le> 2 ^ k" by (rule power_increasing) simp
  with assms(2) show "max 2 n \<le> 2 ^ k" by simp
next
  fix j assume j: "max 2 n \<le> 2 ^ j"
  show "(2::nat) ^ k \<le> 2 ^ j"
  proof (cases "k = 1")
    case True
    with j show ?thesis by simp
  next
    case False
    with assms(3) have "(2::nat) ^ (k - 1) < n" by simp
    moreover from j have "n \<le> 2 ^ j" by simp
    ultimately have "(2::nat) ^ (k - 1) < 2 ^ j" by linarith
    then have "k - 1 < j" by (rule power_less_imp_less_exp [rotated]) simp
    then have "k \<le> j" by simp
    then show ?thesis by (rule power_increasing) simp
  qed
qed

lemma push_all_capacity:
  fixes cfg :: "('s::len, 'e, 'u, 'w) config"
  assumes run: "push_all cfg vec xs w = Some (v', w')"
      and empty: "num vec = 0" "capacity vec = 0"
      and ne: "xs \<noteq> []"
      and rng: "max 2 (length xs) \<le> 2 ^ (LENGTH('s) - 1)"
  shows "unat (num v') = length xs \<and> is_smallest_pow2_ge (max 2 (length xs)) (unat (capacity v'))"
proof -
  from empty have "unat (num vec) = 0" by simp
  moreover from empty have "if (0::nat) = 0 then capacity vec = 0
     else \<exists>k\<ge>1. unat (capacity vec) = 2 ^ k \<and> (0::nat) \<le> 2 ^ k
            \<and> (k = 1 \<or> 2 ^ (k - 1) < (0::nat))"
    by simp
  moreover from rng have "max 2 (0 + length xs) \<le> 2 ^ (LENGTH('s) - 1)" by simp
  ultimately have "unat (num v') = 0 + length xs
         \<and> (if 0 + length xs = 0 then capacity v' = 0
            else \<exists>k\<ge>1. unat (capacity v') = 2 ^ k \<and> 0 + length xs \<le> 2 ^ k
                   \<and> (k = 1 \<or> 2 ^ (k - 1) < 0 + length xs))"
    by (rule push_all_inv [OF run])
  with ne obtain k where "unat (num v') = length xs" "1 \<le> k" "unat (capacity v') = 2 ^ k"
    "length xs \<le> 2 ^ k" "k = 1 \<or> 2 ^ (k - 1) < length xs" by auto
  then show ?thesis using smallest_pow2_geI [of k "length xs"] by simp
qed

text \<open>
  Claim C1, as the code has it.  After \<open>N > 0\<close> pushes from an empty vector
  (\<open>num = capacity = 0\<close>, as \<^verbatim>\<open>AB_VEC_INIT\<close> gives) that all returned 0, the length is \<open>N\<close>
  and the capacity is the smallest power of two that is at least \<open>max 2 N\<close>: 2 and not 1
  after the first push, since the first growth is to 2.  This holds as long as that capacity
  is at most \<open>2 ^ (w - 1)\<close> for a size type of \<open>w\<close> bits (beyond it \<^verbatim>\<open>capacity << 1\<close>
  wraps).  The capacity after any prefix of the pushes is at most the final one, and a push
  that returns 0 changes the capacity only when \<open>num = capacity\<close>, to 2 from 0 and to
  \<open>capacity * 2\<close> otherwise.
\<close>

theorem push_capacity_power_of_two:
  fixes cfg :: "('s::len, 'e, 'u, 'w) config"
  assumes run: "push_all cfg vec xs w = Some (v', w')"
      and empty: "num vec = 0" "capacity vec = 0"
      and ne: "xs \<noteq> []"
      and rng: "max 2 (length xs) \<le> 2 ^ (LENGTH('s) - 1)"
  shows "unat (num v') = length xs
       \<and> is_smallest_pow2_ge (max 2 (length xs)) (unat (capacity v'))
       \<and> (\<forall>ys zs. xs = ys @ zs \<longrightarrow>
            (\<exists>v1 w1. push_all cfg vec ys w = Some (v1, w1) \<and> capacity v1 \<le> capacity v'))
       \<and> (\<forall>v x w0 v1 w1. AB_vec_push cfg v x w0 = Inr (0, v1, w1) \<longrightarrow>
            capacity v1 = (if num v = capacity v
                           then (if capacity v = 0 then 2 else capacity v * 2)
                           else capacity v))"
proof -
  note main = push_all_capacity [OF run empty ne rng]
  have mono: "\<exists>v1 w1. push_all cfg vec ys w = Some (v1, w1) \<and> capacity v1 \<le> capacity v'"
    if split: "xs = ys @ zs" for ys zs
  proof -
    from run split obtain v1 w1 where pre: "push_all cfg vec ys w = Some (v1, w1)"
      by (auto simp: push_all_append split: option.splits)
    have "capacity v1 \<le> capacity v'"
    proof (cases "ys = []")
      case True
      with pre empty show ?thesis by auto
    next
      case False
      from rng split have "max 2 (length ys) \<le> 2 ^ (LENGTH('s) - 1)" by simp
      from push_all_capacity [OF pre empty False this]
      have small: "is_smallest_pow2_ge (max 2 (length ys)) (unat (capacity v1))" by simp
      from main obtain j where j: "unat (capacity v') = 2 ^ j" "max 2 (length xs) \<le> 2 ^ j"
        by (auto simp: is_smallest_pow2_ge_def)
      from j(2) split have "max 2 (length ys) \<le> 2 ^ j" by simp
      with small have "unat (capacity v1) \<le> 2 ^ j" by (simp add: is_smallest_pow2_ge_def)
      with j(1) show ?thesis by (simp add: word_le_nat_alt)
    qed
    with pre show ?thesis by blast
  qed
  have policy: "capacity v1 = (if num v = capacity v
                           then (if capacity v = 0 then 2 else capacity v * 2)
                           else capacity v)"
    if "AB_vec_push cfg v x w0 = Inr (0, v1, w1)" for v x w0 v1 w1
    using push_ok_cases [OF that] by (auto simp: push_bit_eq_mult)
  from main mono policy show ?thesis by blast
qed

theorem push_capacity_power_of_two_witness:
  "push_all int_cfg AB_VEC_INIT driver_values [] =
     Some (\<lparr>num = 20, capacity = 32,
            elems = Some [0, 1, 2, 3, 4, 5, 6, 7, 8, 9, 10, 11, 12, 13, 14, 15, 16, 17, 18, 19,
                          0, 0, 0, 0, 0, 0, 0, 0, 0, 0, 0, 0],
            userdata = None\<rparr>,
           [Realloc_call 0 8 None, Realloc_call 8 16 None, Realloc_call 16 32 None,
            Realloc_call 32 64 None, Realloc_call 64 128 None])
   \<and> num (AB_VEC_INIT :: (64, 32 word, string) AB_vector_generic) = 0
   \<and> capacity (AB_VEC_INIT :: (64, 32 word, string) AB_vector_generic) = 0
   \<and> driver_values \<noteq> []
   \<and> max 2 (length driver_values) \<le> 2 ^ (LENGTH(64) - 1)
   \<and> is_smallest_pow2_ge (max 2 (length driver_values)) (unat (32 :: 64 word))
   \<and> driver_values = [0, 1, 2] @ [3, 4, 5, 6, 7, 8, 9, 10, 11, 12, 13, 14, 15, 16, 17, 18, 19]
   \<and> (\<exists>v1 w1. push_all int_cfg AB_VEC_INIT [0, 1, 2] [] = Some (v1, w1)
          \<and> capacity v1 \<le> 32)
   \<and> AB_vec_push int_cfg vec_full 30 [] =
       Inr (0, \<lparr>num = 3, capacity = 4, elems = Some [10, 20, 30, 0], userdata = None\<rparr>,
            [Realloc_call 8 16 None])
   \<and> num vec_full = capacity vec_full \<and> capacity vec_full * 2 = 4"
proof -
  let ?final = "\<lparr>num = 20 :: 64 word, capacity = 32 :: 64 word,
            elems = Some [0, 1, 2, 3, 4, 5, 6, 7, 8, 9, 10, 11, 12, 13, 14, 15, 16, 17, 18, 19,
                          0, 0, 0, 0, 0, 0, 0, 0, 0, 0, 0, 0 :: 32 word],
            userdata = None :: string option\<rparr>"
  have run: "push_all int_cfg AB_VEC_INIT driver_values [] =
     Some (?final,
           [Realloc_call 0 8 None, Realloc_call 8 16 None, Realloc_call 16 32 None,
            Realloc_call 32 64 None, Realloc_call 64 128 None])"
    by code_simp
  have empty: "num (AB_VEC_INIT :: (64, 32 word, string) AB_vector_generic) = 0"
    "capacity (AB_VEC_INIT :: (64, 32 word, string) AB_vector_generic) = 0"
    by (simp_all add: AB_VEC_INIT_def)
  have ne: "driver_values \<noteq> []" by (simp add: driver_values_def)
  have rng: "max 2 (length driver_values) \<le> 2 ^ (LENGTH(64) - 1)"
    by (simp add: driver_values_def)
  have split: "driver_values =
      [0, 1, 2] @ [3, 4, 5, 6, 7, 8, 9, 10, 11, 12, 13, 14, 15, 16, 17, 18, 19]"
    by (simp add: driver_values_def)
  have push: "AB_vec_push int_cfg vec_full 30 [] =
       Inr (0, \<lparr>num = 3, capacity = 4, elems = Some [10, 20, 30, 0], userdata = None\<rparr>,
            [Realloc_call 8 16 None])"
    by code_simp
  have full: "num vec_full = capacity vec_full \<and> capacity vec_full * 2 = 4"
    by (simp add: vec_full_def)
  note main = push_capacity_power_of_two [OF run empty ne rng]
  from main have "is_smallest_pow2_ge (max 2 (length driver_values)) (unat (capacity ?final))"
    by blast
  then have small: "is_smallest_pow2_ge (max 2 (length driver_values)) (unat (32 :: 64 word))"
    by simp
  from main have "\<forall>ys zs. driver_values = ys @ zs \<longrightarrow>
      (\<exists>v1 w1. push_all int_cfg AB_VEC_INIT ys [] = Some (v1, w1)
          \<and> capacity v1 \<le> capacity ?final)"
    by blast
  with split have "\<exists>v1 w1. push_all int_cfg AB_VEC_INIT [0, 1, 2] [] = Some (v1, w1)
          \<and> capacity v1 \<le> capacity ?final"
    by blast
  then have pre: "\<exists>v1 w1. push_all int_cfg AB_VEC_INIT [0, 1, 2] [] = Some (v1, w1)
          \<and> capacity v1 \<le> 32"
    by simp
  from run empty ne rng small split pre push full show ?thesis by blast
qed

text \<open>
  The claim as written fails for \<open>N = 1\<close>: one push leaves the capacity at 2, and the
  smallest power of two that is at least 1 is 1.
\<close>

theorem push_capacity_counterexample:
  "push_all int_cfg AB_VEC_INIT [7] [] =
     Some (\<lparr>num = 1, capacity = 2, elems = Some [7, 0], userdata = None\<rparr>,
           [Realloc_call 0 8 None])
   \<and> \<not> is_smallest_pow2_ge (length [7 :: 32 word]) (unat (2 :: 64 word))"
proof -
  have run: "push_all int_cfg AB_VEC_INIT [7] [] =
     Some (\<lparr>num = 1, capacity = 2, elems = Some [7, 0], userdata = None\<rparr>,
           [Realloc_call 0 8 None])"
    by code_simp
  have "\<not> is_smallest_pow2_ge 1 2"
  proof
    assume "is_smallest_pow2_ge 1 2"
    then have "\<forall>j. (1::nat) \<le> 2 ^ j \<longrightarrow> (2::nat) \<le> 2 ^ j"
      by (simp add: is_smallest_pow2_ge_def)
    then have "(1::nat) \<le> 2 ^ 0 \<longrightarrow> (2::nat) \<le> 2 ^ 0" by (rule spec)
    then show False by simp
  qed
  with run show ?thesis by simp
qed

subsection \<open>Copy\<close>

lemma memcpy_whole:
  fixes esz :: "'s::len word"
  assumes cp: "memcpy cfg d s (esz * c) esz = Inr p"
      and esz: "0 < esz"
      and bytes: "unat esz * unat c < 2 ^ LENGTH('s)"
      and i: "i < c"
  shows "\<exists>y. load s i = Inr y \<and> load p i = Inr y"
proof -
  from bytes have prod: "unat (esz * c) = unat esz * unat c" by (simp only: unat_mult_lem)
  from esz have e0: "0 < unat esz" by (simp add: word_less_nat_alt)
  from i have c0: "0 < unat c" and ic: "unat i < unat c" by (auto simp: word_less_nat_alt)
  from prod e0 c0 have nz: "esz * c \<noteq> 0" by (auto simp: unat_eq_0 [symmetric] simp del: unat_eq_0)
  from prod e0 have k: "unat (esz * c) div unat esz = unat c" "unat (esz * c) mod unat esz = 0"
    by simp_all
  from cp nz k obtain ds ss where
    "d = Some ds" "s = Some ss" "unat c \<le> length ds" "unat c \<le> length ss"
    "p = Some (take (unat c) ss @ drop (unat c) ds)"
    by (auto simp: memcpy_def Let_def split: option.splits if_splits)
  with ic show ?thesis
    by (simp add: load_def nth_append)
qed

lemma copy_generic_ok_cases:
  assumes "AB_vec_copy_generic cfg dest src esz w = Inr (0, dest', w')"
  shows "\<exists>d1 p. memcpy cfg d1 (elems src) (esz * capacity src) esz = Inr p
           \<and> elems dest' = p \<and> num dest' = num src \<and> userdata dest' = userdata dest
           \<and> capacity dest' = (if capacity dest < capacity src then capacity src else capacity dest)"
  using assms unfolding AB_vec_copy_generic_def Let_def
  by (auto split: if_splits sum.splits prod.splits dest!: resize_generic_cases simp: AB_VEC_ASSERT_def)

text \<open>
  What a copy does, given what the hook returns: the destination is grown by the hook,
  or is large enough and no hook is called, or the source has no storage to copy.
\<close>

lemma memcpy_ok_cases:
  fixes esz c :: "'s::len word"
  assumes cp: "memcpy cfg d s (esz * c) esz = Inr p"
      and esz: "0 < esz"
      and bytes: "unat esz * unat c < 2 ^ LENGTH('s)"
      and c: "c \<noteq> 0"
  shows "\<exists>ds ss. d = Some ds \<and> s = Some ss \<and> unat c \<le> length ds \<and> unat c \<le> length ss
           \<and> p = Some (take (unat c) ss @ drop (unat c) ds)"
proof -
  from bytes have prod: "unat (esz * c) = unat esz * unat c" by (simp only: unat_mult_lem)
  from esz have e0: "0 < unat esz" by (simp add: word_less_nat_alt)
  from c have c0: "0 < unat c" by (simp add: unat_gt_0)
  from prod e0 c0 have nz: "esz * c \<noteq> 0" by (auto simp: unat_eq_0 [symmetric] simp del: unat_eq_0)
  from prod e0 have k: "unat (esz * c) div unat esz = unat c" "unat (esz * c) mod unat esz = 0"
    by simp_all
  from cp nz k show ?thesis
    by (auto simp: memcpy_def Let_def split: option.splits if_splits)
qed

lemma memcpy_slots:
  fixes esz c :: "'s::len word"
  assumes esz: "0 < esz"
      and bytes: "unat esz * unat c < 2 ^ LENGTH('s)"
      and c: "c \<noteq> 0"
      and len: "unat c \<le> length ds" "unat c \<le> length ss"
  shows "memcpy cfg (Some ds) (Some ss) (esz * c) esz =
           Inr (Some (take (unat c) ss @ drop (unat c) ds))"
proof -
  from bytes have prod: "unat (esz * c) = unat esz * unat c" by (simp only: unat_mult_lem)
  from esz have e0: "0 < unat esz" by (simp add: word_less_nat_alt)
  from c have c0: "0 < unat c" by (simp add: unat_gt_0)
  from prod e0 c0 have nz: "esz * c \<noteq> 0" by (auto simp: unat_eq_0 [symmetric] simp del: unat_eq_0)
  from prod e0 have k: "unat (esz * c) div unat esz = unat c" "unat (esz * c) mod unat esz = 0"
    by simp_all
  from nz k len show ?thesis by (simp add: memcpy_def Let_def)
qed

lemma copy_grows:
  fixes cfg :: "('s::len, 'e, 'u, 'w) config"
  assumes lt: "capacity dest < capacity src"
      and hook: "AB_VEC_REALLOC cfg (elems dest) (sizeof_elem cfg * capacity dest)
             (sizeof_elem cfg * capacity src) (userdata dest) w = (Some ys, w1)"
      and src: "elems src = Some ss"
      and len: "unat (capacity src) \<le> length ys" "unat (capacity src) \<le> length ss"
      and esz: "0 < sizeof_elem cfg"
      and bytes: "unat (sizeof_elem cfg) * unat (capacity src) < 2 ^ LENGTH('s)"
  shows "AB_vec_copy cfg dest src w =
    Inr (0, dest\<lparr>num := num src, capacity := capacity src,
                  elems := Some (take (unat (capacity src)) ss @ drop (unat (capacity src)) ys)\<rparr>,
         w1)"
proof -
  from lt have c: "capacity src \<noteq> 0" by auto
  from memcpy_slots [OF esz bytes c len, of cfg] lt hook src show ?thesis
    by (simp add: AB_vec_copy_def AB_vec_copy_generic_def resize_generic_ok AB_VEC_ASSERT_def
        Let_def)
qed

lemma copy_fits:
  fixes cfg :: "('s::len, 'e, 'u, 'w) config"
  assumes ge: "capacity src \<le> capacity dest"
      and c: "capacity src \<noteq> 0"
      and dst: "elems dest = Some ds"
      and src: "elems src = Some ss"
      and len: "unat (capacity src) \<le> length ds" "unat (capacity src) \<le> length ss"
      and esz: "0 < sizeof_elem cfg"
      and bytes: "unat (sizeof_elem cfg) * unat (capacity src) < 2 ^ LENGTH('s)"
  shows "AB_vec_copy cfg dest src w =
    Inr (0, dest\<lparr>num := num src,
                  elems := Some (take (unat (capacity src)) ss @ drop (unat (capacity src)) ds)\<rparr>,
         w)"
proof -
  from ge have nlt: "\<not> capacity dest < capacity src" by simp
  from memcpy_slots [OF esz bytes c len, of cfg] nlt dst src show ?thesis
    by (simp add: AB_vec_copy_def AB_vec_copy_generic_def Let_def)
qed

lemma copy_of_nothing:
  "capacity src = 0 \<Longrightarrow> AB_vec_copy cfg dest src w = Inr (0, dest\<lparr>num := num src\<rparr>, w)"
  by (simp add: AB_vec_copy_def AB_vec_copy_generic_def memcpy_def Let_def)

lemma copy_hook_fails:
  assumes lt: "capacity dest < capacity src"
      and hook: "AB_VEC_REALLOC cfg (elems dest) (sizeof_elem cfg * capacity dest)
             (sizeof_elem cfg * capacity src) (userdata dest) w = (None, w1)"
  shows "AB_vec_copy cfg dest src w =
           (if assert_enabled cfg then Inl AssertFailed else Inr (1, dest, w1))"
  using assms
  by (simp add: AB_vec_copy_def AB_vec_copy_generic_def resize_generic_fails AB_VEC_ASSERT_def
      Let_def)

text \<open>
  Claim C6, as the code has it.  A copy is successful when the allocation hook, if the
  destination is smaller than the source, returns a block of at least the source's
  capacity (otherwise no hook is called).  Then the copy returns 0 and the destination is
  exactly: its own userdata, the source's length, a capacity of the larger of the two, and
  a block whose first \<open>capacity src\<close> slots are the source's.  A failed allocation stops at
  the assertion, or returns 1 with the destination untouched when the assertion is
  compiled out.  After every copy that returned 0 the destination has the source's length,
  a capacity of at least the source's (and a block that large), its own userdata, and
  reads the source's element at every index below both the length and the capacity of
  the source: \<open>capacity src\<close> slots are copied, whatever \<open>num src\<close> is.  So for a source
  with \<open>num \<le> capacity\<close> the elements agree below the length.  The byte size
  \<open>capacity * sizeof(element)\<close> of the source's storage fits the size type, and the element
  size is not 0.
\<close>

theorem copy_length_elements_capacity_userdata:
  fixes cfg :: "('s::len, 'e, 'u, 'w) config"
  shows
  "(capacity dest < capacity src
      \<and> AB_VEC_REALLOC cfg (elems dest) (sizeof_elem cfg * capacity dest)
             (sizeof_elem cfg * capacity src) (userdata dest) w = (Some ys, w1)
      \<and> elems src = Some ss
      \<and> unat (capacity src) \<le> length ys \<and> unat (capacity src) \<le> length ss
      \<and> 0 < sizeof_elem cfg
      \<and> unat (sizeof_elem cfg) * unat (capacity src) < 2 ^ LENGTH('s)
    \<longrightarrow> AB_vec_copy cfg dest src w =
          Inr (0, dest\<lparr>num := num src, capacity := capacity src,
                        elems := Some (take (unat (capacity src)) ss
                                       @ drop (unat (capacity src)) ys)\<rparr>, w1))
   \<and> (capacity src \<le> capacity dest \<and> capacity src \<noteq> 0
      \<and> elems dest = Some ds \<and> elems src = Some ss
      \<and> unat (capacity src) \<le> length ds \<and> unat (capacity src) \<le> length ss
      \<and> 0 < sizeof_elem cfg
      \<and> unat (sizeof_elem cfg) * unat (capacity src) < 2 ^ LENGTH('s)
    \<longrightarrow> AB_vec_copy cfg dest src w =
          Inr (0, dest\<lparr>num := num src,
                        elems := Some (take (unat (capacity src)) ss
                                       @ drop (unat (capacity src)) ds)\<rparr>, w))
   \<and> (capacity src = 0
    \<longrightarrow> AB_vec_copy cfg dest src w = Inr (0, dest\<lparr>num := num src\<rparr>, w))
   \<and> (capacity dest < capacity src
      \<and> AB_VEC_REALLOC cfg (elems dest) (sizeof_elem cfg * capacity dest)
             (sizeof_elem cfg * capacity src) (userdata dest) w = (None, w1)
    \<longrightarrow> AB_vec_copy cfg dest src w =
          (if assert_enabled cfg then Inl AssertFailed else Inr (1, dest, w1)))
   \<and> (AB_vec_copy cfg dest src w = Inr (0, dest', w')
    \<longrightarrow> num dest' = num src
        \<and> capacity src \<le> capacity dest'
        \<and> capacity dest \<le> capacity dest'
        \<and> userdata dest' = userdata dest
        \<and> (0 < sizeof_elem cfg
             \<and> unat (sizeof_elem cfg) * unat (capacity src) < 2 ^ LENGTH('s)
           \<longrightarrow> (capacity src \<noteq> 0
                  \<longrightarrow> (\<exists>p. elems dest' = Some p \<and> unat (capacity src) \<le> length p))
               \<and> (\<forall>i. i < num src \<and> i < capacity src
                    \<longrightarrow> (\<exists>y. AB_vec_at src i = Inr y \<and> AB_vec_at dest' i = Inr y))
               \<and> (num src \<le> capacity src
                  \<longrightarrow> (\<forall>i<num src. \<exists>y. AB_vec_at src i = Inr y
                                        \<and> AB_vec_at dest' i = Inr y))))"
proof (intro conjI impI)
  assume "capacity dest < capacity src
      \<and> AB_VEC_REALLOC cfg (elems dest) (sizeof_elem cfg * capacity dest)
             (sizeof_elem cfg * capacity src) (userdata dest) w = (Some ys, w1)
      \<and> elems src = Some ss
      \<and> unat (capacity src) \<le> length ys \<and> unat (capacity src) \<le> length ss
      \<and> 0 < sizeof_elem cfg
      \<and> unat (sizeof_elem cfg) * unat (capacity src) < 2 ^ LENGTH('s)"
  then show "AB_vec_copy cfg dest src w =
          Inr (0, dest\<lparr>num := num src, capacity := capacity src,
                        elems := Some (take (unat (capacity src)) ss
                                       @ drop (unat (capacity src)) ys)\<rparr>, w1)"
    by (intro copy_grows) simp_all
next
  assume "capacity src \<le> capacity dest \<and> capacity src \<noteq> 0
      \<and> elems dest = Some ds \<and> elems src = Some ss
      \<and> unat (capacity src) \<le> length ds \<and> unat (capacity src) \<le> length ss
      \<and> 0 < sizeof_elem cfg
      \<and> unat (sizeof_elem cfg) * unat (capacity src) < 2 ^ LENGTH('s)"
  then show "AB_vec_copy cfg dest src w =
          Inr (0, dest\<lparr>num := num src,
                        elems := Some (take (unat (capacity src)) ss
                                       @ drop (unat (capacity src)) ds)\<rparr>, w)"
    by (intro copy_fits) simp_all
next
  assume "capacity src = 0"
  then show "AB_vec_copy cfg dest src w = Inr (0, dest\<lparr>num := num src\<rparr>, w)"
    by (rule copy_of_nothing)
next
  assume h: "capacity dest < capacity src
      \<and> AB_VEC_REALLOC cfg (elems dest) (sizeof_elem cfg * capacity dest)
             (sizeof_elem cfg * capacity src) (userdata dest) w = (None, w1)"
  then have "capacity dest < capacity src"
    and "AB_VEC_REALLOC cfg (elems dest) (sizeof_elem cfg * capacity dest)
             (sizeof_elem cfg * capacity src) (userdata dest) w = (None, w1)"
    by simp_all
  then show "AB_vec_copy cfg dest src w =
          (if assert_enabled cfg then Inl AssertFailed else Inr (1, dest, w1))"
    by (rule copy_hook_fails)
next
  assume copy: "AB_vec_copy cfg dest src w = Inr (0, dest', w')"
  then have "AB_vec_copy_generic cfg dest src (sizeof_elem cfg) w = Inr (0, dest', w')"
    by (simp add: AB_vec_copy_def)
  from copy_generic_ok_cases [OF this] obtain d1 p where
    cp: "memcpy cfg d1 (elems src) (sizeof_elem cfg * capacity src) (sizeof_elem cfg) = Inr p"
    and el: "elems dest' = p" and n: "num dest' = num src" and ud: "userdata dest' = userdata dest"
    and cap: "capacity dest' = (if capacity dest < capacity src then capacity src else capacity dest)"
    by blast
  from n show "num dest' = num src" .
  from ud show "userdata dest' = userdata dest" .
  from cap show "capacity src \<le> capacity dest'" by auto
  from cap show "capacity dest \<le> capacity dest'" by auto
  {
    assume eb: "0 < sizeof_elem cfg
             \<and> unat (sizeof_elem cfg) * unat (capacity src) < 2 ^ LENGTH('s)"
    then have esz: "0 < sizeof_elem cfg"
      and bytes: "unat (sizeof_elem cfg) * unat (capacity src) < 2 ^ LENGTH('s)"
      by simp_all
    {
      assume "capacity src \<noteq> 0"
      from memcpy_ok_cases [OF cp esz bytes this] el
      show "\<exists>p. elems dest' = Some p \<and> unat (capacity src) \<le> length p"
        by auto
    }
    have rd: "\<exists>y. AB_vec_at src i = Inr y \<and> AB_vec_at dest' i = Inr y" if "i < capacity src" for i
      using memcpy_whole [OF cp esz bytes that] el by (simp add: AB_vec_at_def)
    then show "\<forall>i. i < num src \<and> i < capacity src
                    \<longrightarrow> (\<exists>y. AB_vec_at src i = Inr y \<and> AB_vec_at dest' i = Inr y)"
      by blast
    {
      assume "num src \<le> capacity src"
      with rd show "\<forall>i<num src. \<exists>y. AB_vec_at src i = Inr y \<and> AB_vec_at dest' i = Inr y"
        by auto
    }
  }
qed

theorem copy_length_elements_capacity_userdata_witness:
  "capacity vec_small < capacity vec3
   \<and> AB_VEC_REALLOC int_cfg (elems vec_small) (sizeof_elem int_cfg * capacity vec_small)
         (sizeof_elem int_cfg * capacity vec3) (userdata vec_small) [] =
       (Some [77, 0, 0, 0], [Realloc_call 4 16 (Some ''d'')])
   \<and> elems vec3 = Some [10, 20, 30, 0]
   \<and> unat (capacity vec3) \<le> length [77, 0, 0, 0 :: 32 word]
   \<and> unat (capacity vec3) \<le> length [10, 20, 30, 0 :: 32 word]
   \<and> 0 < sizeof_elem int_cfg
   \<and> unat (sizeof_elem int_cfg) * unat (capacity vec3) < 2 ^ LENGTH(64)
   \<and> AB_vec_copy int_cfg vec_small vec3 [] =
       Inr (0, \<lparr>num = 3, capacity = 4, elems = Some [10, 20, 30, 0], userdata = Some ''d''\<rparr>,
            [Realloc_call 4 16 (Some ''d'')])
   \<and> capacity vec3 \<le> capacity vec_big \<and> capacity vec3 \<noteq> 0
   \<and> elems vec_big = Some [1, 2, 3, 4, 5]
   \<and> unat (capacity vec3) \<le> length [1, 2, 3, 4, 5 :: 32 word]
   \<and> AB_vec_copy int_cfg vec_big vec3 [] =
       Inr (0, \<lparr>num = 3, capacity = 5, elems = Some [10, 20, 30, 0, 5], userdata = Some ''d''\<rparr>,
            [])
   \<and> capacity vec0 = 0
   \<and> AB_vec_copy int_cfg vec_small vec0 [] =
       Inr (0, \<lparr>num = 0, capacity = 1, elems = Some [77], userdata = Some ''d''\<rparr>, [])
   \<and> num vec3 = 3 \<and> capacity vec3 = 4 \<and> userdata vec_small = Some ''d''
   \<and> AB_vec_at vec3 0 = Inr 10 \<and> AB_vec_at vec3 1 = Inr 20 \<and> AB_vec_at vec3 2 = Inr 30
   \<and> AB_vec_at \<lparr>num = 3, capacity = 4, elems = Some [10, 20, 30, 0 :: 32 word],
                  userdata = Some ''d''\<rparr> (0 :: 64 word) = Inr 10
   \<and> AB_vec_at \<lparr>num = 3, capacity = 4, elems = Some [10, 20, 30, 0 :: 32 word],
                  userdata = Some ''d''\<rparr> (1 :: 64 word) = Inr 20
   \<and> AB_vec_at \<lparr>num = 3, capacity = 4, elems = Some [10, 20, 30, 0 :: 32 word],
                  userdata = Some ''d''\<rparr> (2 :: 64 word) = Inr 30"
proof -
  have g1: "capacity vec_small < capacity vec3" by (simp add: vec_small_def vec3_def)
  have g2: "AB_VEC_REALLOC int_cfg (elems vec_small) (sizeof_elem int_cfg * capacity vec_small)
         (sizeof_elem int_cfg * capacity vec3) (userdata vec_small) [] =
       (Some [77, 0, 0, 0], [Realloc_call 4 16 (Some ''d'')])"
    by code_simp
  have g3: "elems vec3 = Some [10, 20, 30, 0]" by (simp add: vec3_def)
  have g4: "unat (capacity vec3) \<le> length [77, 0, 0, 0 :: 32 word]" by (simp add: vec3_def)
  have g5: "unat (capacity vec3) \<le> length [10, 20, 30, 0 :: 32 word]" by (simp add: vec3_def)
  have esz: "0 < sizeof_elem int_cfg" by (simp add: int_cfg_def)
  have bytes: "unat (sizeof_elem int_cfg) * unat (capacity vec3) < 2 ^ LENGTH(64)"
    by (simp add: int_cfg_def vec3_def)
  have f1: "capacity vec3 \<le> capacity vec_big \<and> capacity vec3 \<noteq> 0"
    by (simp add: vec_big_def vec3_def)
  have f2: "elems vec_big = Some [1, 2, 3, 4, 5]" by (simp add: vec_big_def)
  have f3: "unat (capacity vec3) \<le> length [1, 2, 3, 4, 5 :: 32 word]" by (simp add: vec3_def)
  have z: "capacity vec0 = 0" by (simp add: vec0_def AB_VEC_INIT_def)
  have facts: "num vec3 = 3 \<and> capacity vec3 = 4 \<and> userdata vec_small = Some ''d''"
    by (simp add: vec3_def vec_small_def)
  from copy_length_elements_capacity_userdata
         [where cfg = int_cfg and dest = vec_small and src = vec3 and w = "[]"
            and ys = "[77, 0, 0, 0]" and ?w1.0 = "[Realloc_call 4 16 (Some ''d'')]"
            and ss = "[10, 20, 30, 0]"]
       g1 g2 g3 g4 g5 esz bytes
  have grow: "AB_vec_copy int_cfg vec_small vec3 [] =
       Inr (0, \<lparr>num = 3, capacity = 4, elems = Some [10, 20, 30, 0], userdata = Some ''d''\<rparr>,
            [Realloc_call 4 16 (Some ''d'')])"
    by (simp add: vec3_def vec_small_def)
  from copy_length_elements_capacity_userdata
         [where cfg = int_cfg and dest = vec_big and src = vec3 and w = "[]"
            and ds = "[1, 2, 3, 4, 5]" and ss = "[10, 20, 30, 0]"]
       f1 f2 g3 f3 g5 esz bytes
  have fits: "AB_vec_copy int_cfg vec_big vec3 [] =
       Inr (0, \<lparr>num = 3, capacity = 5, elems = Some [10, 20, 30, 0, 5], userdata = Some ''d''\<rparr>,
            [])"
    by (simp add: vec3_def vec_big_def)
  from copy_length_elements_capacity_userdata
         [where cfg = int_cfg and dest = vec_small and src = vec0 and w = "[]"] z
  have none: "AB_vec_copy int_cfg vec_small vec0 [] =
       Inr (0, \<lparr>num = 0, capacity = 1, elems = Some [77], userdata = Some ''d''\<rparr>, [])"
    by (simp add: vec0_def vec_small_def AB_VEC_INIT_def)
  have reads: "AB_vec_at vec3 0 = Inr 10 \<and> AB_vec_at vec3 1 = Inr 20 \<and> AB_vec_at vec3 2 = Inr 30
   \<and> AB_vec_at \<lparr>num = 3, capacity = 4, elems = Some [10, 20, 30, 0 :: 32 word],
                  userdata = Some ''d''\<rparr> (0 :: 64 word) = Inr 10
   \<and> AB_vec_at \<lparr>num = 3, capacity = 4, elems = Some [10, 20, 30, 0 :: 32 word],
                  userdata = Some ''d''\<rparr> (1 :: 64 word) = Inr 20
   \<and> AB_vec_at \<lparr>num = 3, capacity = 4, elems = Some [10, 20, 30, 0 :: 32 word],
                  userdata = Some ''d''\<rparr> (2 :: 64 word) = Inr 30"
    by (simp add: vec3_def AB_vec_at_def load_def)
  from g1 g2 g3 g4 g5 esz bytes grow f1 f2 f3 fits z none facts reads show ?thesis by blast
qed


text \<open>
  The claim as written fails on the source that a resize of \<open>vec3\<close> to 2 leaves: its
  length is 3, two slots are copied, and at index 2 the destination keeps its own old
  element while the source has no slot to read.
\<close>

theorem copy_elements_counterexample:
  "AB_vec_resize int_cfg vec3 2 [] = Inr (0, vec_shrunk, [Realloc_call 16 8 (Some ''v'')])
   \<and> (2 :: 64 word) < num vec_shrunk
   \<and> AB_vec_copy int_cfg vec_big vec_shrunk [] =
       Inr (0, \<lparr>num = 3, capacity = 5, elems = Some [10, 20, 3, 4, 5], userdata = Some ''d''\<rparr>,
            [])
   \<and> AB_vec_at \<lparr>num = 3, capacity = 5, elems = Some [10, 20, 3, 4, 5 :: 32 word],
                  userdata = Some ''d''\<rparr> (2 :: 64 word) = Inr 3
   \<and> AB_vec_at vec_shrunk 2 = Inl InvalidAccess"
  by code_simp

end
